theory Spec2Isabelle
  imports Complex_Main "HOL-Library.Word"
begin

unbundle bit_operations_syntax

section \<open>Bytes, exceptions and the struct helpers\<close>

text \<open>
  Python \<open>bytes\<close> are lists of 8-bit words. The integers the driver computes with are
  lengths and unsigned \<open>struct.unpack\<close> results, never negative, so they are \<open>nat\<close>.
  Every exception the source can raise is a constructor of \<open>error\<close>; two exceptions of
  the same Python class raised at different places keep different constructors, so that a
  theorem can tell them apart.
\<close>

type_synonym byte = "8 word"
type_synonym bytes = "byte list"

datatype error =
    BufferError_Frame_kaputt          \<comment> \<open>\<open>BufferError('Frame kaputt')\<close>\<close>
  | BufferError_Missing_packet nat    \<comment> \<open>\<open>BufferError('Missing packet: Last packet {len(scratch)}')\<close>\<close>
  | BufferError_Frame_missing nat     \<comment> \<open>\<open>BufferError('Frame {frame_id} missing: Request Retransmit')\<close>\<close>
  | ValueError_Payload_CRC            \<comment> \<open>\<open>ValueError('Payload failed CRC check.')\<close>\<close>
  | ValueError_max_empty              \<comment> \<open>\<open>max()\<close> of an empty sequence\<close>
  | ValueError_int_literal            \<comment> \<open>\<open>int(s, base=16)\<close> on a malformed literal\<close>
  | ValueError_mtu nat                \<comment> \<open>\<open>ValueError('ESB fragment exeeds mtu ...')\<close>\<close>
  | ValueError_serial                 \<comment> \<open>\<open>ValueError('Inverter serial while decoding response')\<close>\<close>
  | ValueError_address_length nat     \<comment> \<open>\<open>ValueError('Set invalid ... address legth ...')\<close>\<close>
  | NotImplementedError               \<comment> \<open>\<open>NotImplementedError('Model lookup failed ...')\<close>\<close>
  | TypeError                         \<comment> \<open>\<open>len(None)\<close>\<close>
  | IndexError                        \<comment> \<open>index out of range\<close>
  | OverflowError                     \<comment> \<open>\<open>int.to_bytes\<close>: int too big to convert\<close>
  | StructError                       \<comment> \<open>\<open>struct.error\<close>: wrong buffer size or value out of range\<close>

text \<open>\<open>struct.unpack\<close> with the big-endian formats \<open>>B\<close>, \<open>>H\<close> and \<open>>L\<close>: the buffer must
  have exactly the size of the format.\<close>

definition unpack_B :: "bytes \<Rightarrow> error + nat" where
  "unpack_B bs = (case bs of [a] \<Rightarrow> Inr (unat a) | _ \<Rightarrow> Inl StructError)"

definition unpack_H :: "bytes \<Rightarrow> error + nat" where
  "unpack_H bs = (case bs of [a, b] \<Rightarrow> Inr (256 * unat a + unat b) | _ \<Rightarrow> Inl StructError)"

definition unpack_L :: "bytes \<Rightarrow> error + nat" where
  "unpack_L bs =
     (case bs of
        [a, b, c, d] \<Rightarrow> Inr (16777216 * unat a + 65536 * unat b + 256 * unat c + unat d)
      | _ \<Rightarrow> Inl StructError)"

text \<open>\<open>struct.pack\<close> with the same formats: the value must fit the format.\<close>

definition pack_B :: "nat \<Rightarrow> error + bytes" where
  "pack_B n = (if n < 256 then Inr [of_nat n] else Inl StructError)"

definition pack_H :: "nat \<Rightarrow> error + bytes" where
  "pack_H n = (if n < 65536 then Inr [of_nat (n div 256), of_nat n] else Inl StructError)"

definition pack_L :: "nat \<Rightarrow> error + bytes" where
  "pack_L n =
     (if n < 4294967296
      then Inr [of_nat (n div 16777216), of_nat (n div 65536), of_nat (n div 256), of_nat n]
      else Inl StructError)"

text \<open>\<open>int(n).to_bytes(1, 'big')\<close>.\<close>

definition to_bytes_1 :: "nat \<Rightarrow> error + bytes" where
  "to_bytes_1 n = (if n < 256 then Inr [of_nat n] else Inl OverflowError)"

section \<open>The two checksums\<close>

text \<open>
  The source builds both checksum functions with the crcmod library:
  \<open>f_crc8 = crcmod.mkCrcFun(0x101, initCrc=0, xorOut=0)\<close> and
  \<open>f_crc_m = crcmod.predefined.mkPredefinedCrcFun('modbus')\<close>. Both are reflected
  (\<open>rev\<close> is crcmod's default and the Modbus preset), so crcmod reverses the polynomial
  (\<open>0x01\<close> becomes \<open>0x80\<close>, \<open>0x8005\<close> becomes \<open>0xA001\<close>), fills a 256-entry table by eight
  right shifts per entry, and folds the table over the data.
\<close>

definition crc_shift_r :: "'a::len word \<Rightarrow> 'a word \<Rightarrow> 'a word" where
  "crc_shift_r poly crc = (if bit crc 0 then drop_bit 1 crc XOR poly else drop_bit 1 crc)"

definition bytecrc_r :: "'a::len word \<Rightarrow> 'a word \<Rightarrow> 'a word" where
  "bytecrc_r poly crc = (crc_shift_r poly ^^ 8) crc"

fun crc8r :: "bytes \<Rightarrow> byte \<Rightarrow> byte" where
  "crc8r [] crc = crc"
| "crc8r (x # xs) crc = crc8r xs (bytecrc_r 0x80 (x XOR crc))"

fun crc16r :: "bytes \<Rightarrow> 16 word \<Rightarrow> 16 word" where
  "crc16r [] crc = crc"
| "crc16r (x # xs) crc =
     crc16r xs (bytecrc_r 0xA001 ((ucast x XOR crc) AND 0xFF) XOR drop_bit 8 crc)"

definition f_crc8 :: "bytes \<Rightarrow> byte" where
  "f_crc8 dat = crc8r dat 0"

definition f_crc_m :: "bytes \<Rightarrow> 16 word" where
  "f_crc_m dat = crc16r dat 0xFFFF"

section \<open>Received fragments\<close>

text \<open>
  \<open>InverterPacketFragment\<close>: the raw frame with its reception metadata. A \<open>datetime\<close> is a
  tick count. The constructor takes the clock reading \<open>now\<close> that \<open>datetime.now()\<close> would
  return; it indexes \<open>payload[-1]\<close> (IndexError on an empty payload) and raises
  \<open>BufferError\<close> when the CRC-8 of all bytes but the last differs from the last byte.
\<close>

record InverterPacketFragment =
  frame :: bytes
  time_rx :: nat
  ch_rx :: "nat option"
  ch_tx :: "nat option"

definition InverterPacketFragment_init ::
  "nat \<Rightarrow> nat option \<Rightarrow> bytes \<Rightarrow> nat option \<Rightarrow> nat option \<Rightarrow> error + InverterPacketFragment"
where
  "InverterPacketFragment_init now t_rx payload c_rx c_tx =
     (let t = (case t_rx of None \<Rightarrow> now | Some t' \<Rightarrow> t') in
      if payload = [] then Inl IndexError
      else if f_crc8 (butlast payload) \<noteq> last payload then Inl BufferError_Frame_kaputt
      else Inr \<lparr>frame = payload, time_rx = t, ch_rx = c_rx, ch_tx = c_tx\<rparr>)"

text \<open>The accessors. Each slices the frame and unpacks the slice, so each can fail where
  the slice is shorter than its format.\<close>

definition main_cmd :: "InverterPacketFragment \<Rightarrow> error + nat" where
  "main_cmd f = (case frame f of [] \<Rightarrow> Inl IndexError | b # _ \<Rightarrow> Inr (unat b))"

definition src :: "InverterPacketFragment \<Rightarrow> error + nat" where
  "src f = unpack_L (take 4 (drop 1 (frame f)))"    \<comment> \<open>\<open>frame[1:5]\<close>\<close>

definition dst :: "InverterPacketFragment \<Rightarrow> error + nat" where
  "dst f = unpack_L (take 3 (drop 5 (frame f)))"    \<comment> \<open>\<open>frame[5:8]\<close>\<close>

definition seq :: "InverterPacketFragment \<Rightarrow> error + nat" where
  "seq f = unpack_B (take 1 (drop 9 (frame f)))"    \<comment> \<open>\<open>frame[9:10]\<close>\<close>

definition data :: "InverterPacketFragment \<Rightarrow> bytes" where
  "data f = drop 10 (butlast (frame f))"            \<comment> \<open>\<open>frame[10:-1]\<close>\<close>

section \<open>Address codec\<close>

text \<open>
  A serial number is held as the text \<open>str()\<close> gives for it (the callers pass decimal
  integers or strings); \<open>None\<close> is the absent serial, whose \<open>str()\<close> is \<open>'None'\<close>.
  \<open>int_base16\<close> is \<open>int(s, base=16)\<close> on runs of hexadecimal digits, which is what the
  last eight characters of a serial are. Python also accepts surrounding whitespace, a
  sign, a \<open>0x\<close> prefix and single underscores between digits; serial numbers contain
  none of these, and such a literal is reported here like every malformed one.
\<close>

definition hex_digit :: "char \<Rightarrow> nat option" where
  "hex_digit c =
     (let n = of_char c :: nat in
      if 48 \<le> n \<and> n \<le> 57 then Some (n - 48)
      else if 97 \<le> n \<and> n \<le> 102 then Some (n - 87)
      else if 65 \<le> n \<and> n \<le> 70 then Some (n - 55)
      else None)"

fun hex_value :: "string \<Rightarrow> nat \<Rightarrow> nat option" where
  "hex_value [] acc = Some acc"
| "hex_value (c # cs) acc =
     (case hex_digit c of None \<Rightarrow> None | Some d \<Rightarrow> hex_value cs (16 * acc + d))"

definition int_base16 :: "string \<Rightarrow> error + nat" where
  "int_base16 s =
     (if s = [] then Inl ValueError_int_literal
      else case hex_value s 0 of None \<Rightarrow> Inl ValueError_int_literal | Some n \<Rightarrow> Inr n)"

definition str_of_serial :: "string option \<Rightarrow> string" where
  "str_of_serial ser = (case ser of None \<Rightarrow> ''None'' | Some s \<Rightarrow> s)"

definition ser_to_hm_addr :: "string option \<Rightarrow> error + bytes" where
  "ser_to_hm_addr inverter_ser =
     (let s = str_of_serial inverter_ser in
      case int_base16 (drop (length s - 8) s) of     \<comment> \<open>\<open>str(inverter_ser)[-8:]\<close>\<close>
        Inl e \<Rightarrow> Inl e
      | Inr bcd \<Rightarrow> pack_L bcd)"

definition ser_to_esb_addr :: "string option \<Rightarrow> error + bytes" where
  "ser_to_esb_addr inverter_ser =
     (case ser_to_hm_addr inverter_ser of
        Inl e \<Rightarrow> Inl e
      | Inr a \<Rightarrow> (let air_order = rev a @ [0x01] in Inr (rev air_order)))"

section \<open>Frame composition\<close>

definition frame_payload :: "bytes \<Rightarrow> error + bytes" where
  "frame_payload payload =
     (case pack_H (unat (f_crc_m payload)) of Inl e \<Rightarrow> Inl e | Inr c \<Rightarrow> Inr (payload @ c))"

definition compose_esb_fragment ::
  "bytes \<Rightarrow> bytes \<Rightarrow> bytes \<Rightarrow> string option \<Rightarrow> string option \<Rightarrow> error + bytes"
where
  "compose_esb_fragment fragment maincmd subcmd src_ser dst_ser =
     (if length fragment > 17 then Inl (ValueError_mtu (length fragment))
      else case ser_to_hm_addr dst_ser of
        Inl e \<Rightarrow> Inl e
      | Inr d \<Rightarrow>
          (case ser_to_hm_addr src_ser of
             Inl e \<Rightarrow> Inl e
           | Inr s \<Rightarrow>
               (let packet = maincmd @ d @ s @ subcmd @ fragment
                in Inr (packet @ [f_crc8 packet]))))"

text \<open>
  \<open>ESBFrame\<close>. The constructor stores the payload and checks the two addresses against
  the address length 4; it never reads a \<open>preamble\<close> parameter, so the preamble of every
  frame is the class default \<open>0x15\<close>.
\<close>

record ESBFrame =
  esb_preamble :: bytes
  esb_target :: bytes
  esb_source :: bytes
  esb_payload :: bytes

definition ESBFrame_init :: "bytes \<Rightarrow> bytes \<Rightarrow> bytes \<Rightarrow> bytes \<Rightarrow> error + ESBFrame" where
  "ESBFrame_init preamble_param source_param target_param payload_param =
     (if length source_param \<noteq> 4 then Inl (ValueError_address_length (length source_param))
      else if length target_param \<noteq> 4
        then Inl (ValueError_address_length (length target_param))
      else Inr \<lparr>esb_preamble = [0x15], esb_target = target_param,
                esb_source = source_param, esb_payload = payload_param\<rparr>)"

definition ESBFrame_packet :: "ESBFrame \<Rightarrow> bytes" where
  "ESBFrame_packet f = esb_preamble f @ esb_target f @ esb_source f @ esb_payload f"

definition ESBFrame_crc :: "ESBFrame \<Rightarrow> bytes" where
  "ESBFrame_crc f = [f_crc8 (ESBFrame_packet f)]"

definition ESBFrame_bytes :: "ESBFrame \<Rightarrow> bytes" where
  "ESBFrame_bytes f = ESBFrame_packet f @ ESBFrame_crc f"

text \<open>
  \<open>RequestFactory\<close> with its step \<open>_mtu = 16\<close>. \<open>range_step l m\<close> is \<open>range(0, l, m)\<close>.
  \<open>RequestFactory_iter\<close> is what a consumer that drains the generator \<open>__iter__\<close> gets:
  all frames, or the first exception.
\<close>

record RequestFactory =
  rf_maincmd :: bytes
  rf_source :: bytes
  rf_target :: bytes
  rf_subcmd :: bytes
  rf_payload :: bytes

definition rf_mtu :: nat where
  "rf_mtu = 16"

definition range_step :: "nat \<Rightarrow> nat \<Rightarrow> nat list" where
  "range_step l m = map (\<lambda>k. k * m) [0..<(l + m - 1) div m]"

definition RequestFactory_crc :: "RequestFactory \<Rightarrow> error + bytes" where
  "RequestFactory_crc rf = pack_H (unat (f_crc_m (rf_payload rf)))"

fun iter_frames :: "RequestFactory \<Rightarrow> bytes \<Rightarrow> nat list \<Rightarrow> nat \<Rightarrow> error + ESBFrame list" where
  "iter_frames rf payload [] n_frame = Inr []"
| "iter_frames rf payload (i_base # rest) n_frame =
     (let n1 = n_frame + 0x01;
          n2 = (if i_base + rf_mtu \<ge> length payload then n1 + 0x80 else n1)
      in case pack_B n2 of
           Inl e \<Rightarrow> Inl e
         | Inr subcmd \<Rightarrow>
             (case ESBFrame_init (rf_maincmd rf) (rf_source rf) (rf_target rf)
                     (subcmd @ take rf_mtu (drop i_base payload)) of
                Inl e \<Rightarrow> Inl e
              | Inr fr \<Rightarrow>
                  (case iter_frames rf payload rest n2 of
                     Inl e \<Rightarrow> Inl e
                   | Inr frs \<Rightarrow> Inr (fr # frs))))"

definition RequestFactory_iter :: "RequestFactory \<Rightarrow> error + ESBFrame list" where
  "RequestFactory_iter rf =
     (case RequestFactory_crc rf of
        Inl e \<Rightarrow> Inl e
      | Inr c \<Rightarrow>
          (let payload = rf_payload rf @ c; l_payload = length payload
           in iter_frames rf payload (range_step l_payload rf_mtu) 0x00))"

section \<open>The transaction\<close>

text \<open>
  The values the attribute \<open>inverter_addr\<close> and the parameter \<open>src\<close> of \<open>get_payload\<close> take:
  \<open>None\<close>, the \<open>bytes\<close> that \<open>ser_to_hm_addr\<close> returns, or the \<open>int\<close> that
  \<open>struct.unpack\<close> reads from a request. \<open>truthy\<close> is Python's truth value, and
  \<open>int_eq n a\<close> is the comparison \<open>n == a\<close> of an \<open>int\<close> with such a value: an \<open>int\<close>
  equals neither \<open>None\<close> nor any \<open>bytes\<close>.
\<close>

datatype pyaddr = AddrNone | AddrBytes bytes | AddrInt nat

fun truthy :: "pyaddr \<Rightarrow> bool" where
  "truthy AddrNone = False"
| "truthy (AddrBytes b) = (b \<noteq> [])"
| "truthy (AddrInt n) = (n \<noteq> 0)"

fun int_eq :: "nat \<Rightarrow> pyaddr \<Rightarrow> bool" where
  "int_eq n (AddrInt m) = (n = m)"
| "int_eq n _ = False"

text \<open>
  One \<open>InverterTransaction\<close> as its own methods see it: \<open>tx_queue\<close> and \<open>scratch\<close> are the
  contents of the list objects that the attributes of that name resolve to. \<open>radio\<close>
  records whether a radio was given.
\<close>

record InverterTransaction =
  tx_queue :: "bytes list"
  scratch :: "InverterPacketFragment list"
  inverter_ser :: "string option"
  inverter_addr :: pyaddr
  dtu_ser :: "string option"
  dtu_addr :: pyaddr
  req_type :: "nat option"
  txn_time_rx :: "nat option"
  radio :: bool

definition frame_append :: "InverterPacketFragment \<Rightarrow> InverterTransaction \<Rightarrow> InverterTransaction" where
  "frame_append f t = t\<lparr>scratch := scratch t @ [f]\<rparr>"

definition queue_tx :: "bytes \<Rightarrow> InverterTransaction \<Rightarrow> bool \<times> InverterTransaction" where
  "queue_tx f t = (if \<not> radio t then (False, t) else (True, t\<lparr>tx_queue := tx_queue t @ [f]\<rparr>))"

text \<open>\<open>__retransmit_frame\<close>: without a radio it returns at once; otherwise it composes the
  request, which can raise, and queues it.\<close>

definition retransmit_frame :: "nat \<Rightarrow> InverterTransaction \<Rightarrow> (error + unit) \<times> InverterTransaction" where
  "retransmit_frame frame_id t =
     (if \<not> radio t then (Inr (), t)
      else case to_bytes_1 (0x80 + frame_id) of
        Inl e \<Rightarrow> (Inl e, t)
      | Inr subcmd \<Rightarrow>
          (case compose_esb_fragment [] [0x15] subcmd (dtu_ser t) (inverter_ser t) of
             Inl e \<Rightarrow> (Inl e, t)
           | Inr packet \<Rightarrow> (Inr (), snd (queue_tx packet t))))"

text \<open>The list comprehension \<open>[frame for frame in self.scratch if frame.src == src]\<close>: it
  evaluates \<open>frame.src\<close> on every entry, in order, and the first failure ends it.\<close>

fun frames_from :: "pyaddr \<Rightarrow> InverterPacketFragment list \<Rightarrow> error + InverterPacketFragment list" where
  "frames_from a [] = Inr []"
| "frames_from a (f # fs) =
     (case src f of
        Inl e \<Rightarrow> Inl e
      | Inr n \<Rightarrow>
          (case frames_from a fs of
             Inl e \<Rightarrow> Inl e
           | Inr r \<Rightarrow> Inr (if int_eq n a then f # r else r)))"

text \<open>\<open>next(frame for frame in frames if P(frame.seq))\<close>: the first frame whose sequence
  byte satisfies \<open>P\<close>; \<open>None\<close> stands for \<open>StopIteration\<close>.\<close>

fun next_frame :: "(nat \<Rightarrow> bool) \<Rightarrow> InverterPacketFragment list \<Rightarrow> error + InverterPacketFragment option" where
  "next_frame P [] = Inr None"
| "next_frame P (f # fs) =
     (case seq f of
        Inl e \<Rightarrow> Inl e
      | Inr s \<Rightarrow> if P s then Inr (Some f) else next_frame P fs)"

text \<open>\<open>max(frames, key=lambda frame: frame.seq)\<close>: the first frame of greatest key.\<close>

fun max_loop :: "InverterPacketFragment \<times> nat \<Rightarrow> InverterPacketFragment list \<Rightarrow> error + InverterPacketFragment" where
  "max_loop best [] = Inr (fst best)"
| "max_loop best (f # fs) =
     (case seq f of
        Inl e \<Rightarrow> Inl e
      | Inr s \<Rightarrow> max_loop (if s > snd best then (f, s) else best) fs)"

fun max_frame :: "InverterPacketFragment list \<Rightarrow> error + InverterPacketFragment" where
  "max_frame [] = Inl ValueError_max_empty"
| "max_frame (f # fs) = (case seq f of Inl e \<Rightarrow> Inl e | Inr s \<Rightarrow> max_loop (f, s) fs)"

text \<open>The loop \<open>for frame_id in range(1, tr_len)\<close>: it ends with the payload, with the
  first missing frame id, or with the exception of a failing accessor. The caller
  requests the retransmission of a missing frame and raises.\<close>

datatype rebuilt = Rebuilt bytes | Missing nat | Raised error

fun rebuild :: "InverterPacketFragment list \<Rightarrow> nat list \<Rightarrow> bytes \<Rightarrow> rebuilt" where
  "rebuild frames [] payload = Rebuilt payload"
| "rebuild frames (frame_id # ids) payload =
     (case next_frame (\<lambda>s. s = frame_id) frames of
        Inl e \<Rightarrow> Raised e
      | Inr None \<Rightarrow> Missing frame_id
      | Inr (Some data_frame) \<Rightarrow> rebuild frames ids (payload @ data data_frame))"

definition filter_src :: "pyaddr \<Rightarrow> InverterTransaction \<Rightarrow> pyaddr" where
  "filter_src src_param t = (if \<not> truthy src_param then inverter_addr t else src_param)"

definition check_crc :: "InverterPacketFragment \<Rightarrow> bytes \<Rightarrow> error + nat \<times> bytes" where
  "check_crc end_frame payload =
     (case unpack_H (drop (length payload - 2) payload) of      \<comment> \<open>\<open>payload[-2:]\<close>\<close>
        Inl e \<Rightarrow> Inl e
      | Inr pcrc \<Rightarrow>
          if unat (f_crc_m (take (length payload - 2) payload)) \<noteq> pcrc   \<comment> \<open>\<open>payload[:-2]\<close>\<close>
          then Inl ValueError_Payload_CRC
          else (case main_cmd end_frame of
                  Inl e \<Rightarrow> Inl e
                | Inr c \<Rightarrow> Inr (c, payload)))"

definition get_payload ::
  "pyaddr \<Rightarrow> InverterTransaction \<Rightarrow> (error + nat \<times> bytes) \<times> InverterTransaction"
where
  "get_payload src_param t =
     (case frames_from (filter_src src_param t) (scratch t) of
        Inl e \<Rightarrow> (Inl e, t)
      | Inr frames \<Rightarrow>
          (case next_frame (\<lambda>s. s > 0x80) frames of
             Inl e \<Rightarrow> (Inl e, t)
           | Inr None \<Rightarrow>
               (case max_frame frames of
                  Inl e \<Rightarrow> (Inl e, t)
                | Inr m \<Rightarrow>
                    (case seq m of
                       Inl e \<Rightarrow> (Inl e, t)
                     | Inr seq_last \<Rightarrow>
                         (case retransmit_frame (seq_last + 1) t of
                            (Inl e, t') \<Rightarrow> (Inl e, t')
                          | (Inr _, t') \<Rightarrow>
                              (Inl (BufferError_Missing_packet (length (scratch t))), t'))))
           | Inr (Some end_frame) \<Rightarrow>
               (let t1 = t\<lparr>txn_time_rx := Some (time_rx end_frame)\<rparr> in
                case seq end_frame of
                  Inl e \<Rightarrow> (Inl e, t1)
                | Inr s \<Rightarrow>
                    (case rebuild frames [1..<s - 0x80] [] of
                       Raised e \<Rightarrow> (Inl e, t1)
                     | Missing frame_id \<Rightarrow>
                         (case retransmit_frame frame_id t1 of
                            (Inl e, t2) \<Rightarrow> (Inl e, t2)
                          | (Inr _, t2) \<Rightarrow> (Inl (BufferError_Frame_missing frame_id), t2))
                     | Rebuilt payload \<Rightarrow> (check_crc end_frame (payload @ data end_frame), t1)))))"

section \<open>Model classification\<close>

text \<open>
  \<open>re.match(r'^1121........', ser_str)\<close> and its two siblings: the four digits, then
  eight characters none of which is a newline. The loop over \<open>ser_db\<close> keeps the first
  match and leaves \<open>model\<close> at \<open>None\<close> when there is none; \<open>len(model)\<close> then raises
  \<open>TypeError\<close>, and the \<open>raise NotImplementedError\<close> after it is reached for an empty
  model name only.
\<close>

definition re_match :: "string \<Rightarrow> string \<Rightarrow> bool" where
  "re_match prefix s =
     (take 4 s = prefix \<and> 12 \<le> length s \<and> CHR 0x0A \<notin> set (take 8 (drop 4 s)))"

definition ser_db :: "(string \<times> string) list" where
  "ser_db = [(''Hm300'', ''1121''), (''Hm600'', ''1141''), (''Hm1200'', ''1161'')]"

fun lookup_model :: "(string \<times> string) list \<Rightarrow> string \<Rightarrow> string option" where
  "lookup_model [] ser_str = None"
| "lookup_model ((s_model, r_match) # db) ser_str =
     (if re_match r_match ser_str then Some s_model else lookup_model db ser_str)"

definition inverter_model :: "string option \<Rightarrow> error + string" where
  "inverter_model ser =
     (if ser = None \<or> ser = Some [] then Inl ValueError_serial
      else case lookup_model ser_db (str_of_serial ser) of
        None \<Rightarrow> Inl TypeError
      | Some model \<Rightarrow> if length model \<noteq> 0 then Inr model else Inl NotImplementedError)"

section \<open>The HM600 status decoder\<close>

text \<open>
  \<open>StatusResponse.unpack(fmt, base)\<close> unpacks \<open>response[base:base+size]\<close>. The properties
  of \<open>Hm600Decode0B\<close> divide the unpacked integer with Python's \<open>/\<close>; the quotient is kept
  here as the exact rational, of which the Python float is the nearest double.
\<close>

definition unpack_H_at :: "bytes \<Rightarrow> nat \<Rightarrow> error + nat" where
  "unpack_H_at response base = unpack_H (take 2 (drop base response))"

definition unpack_L_at :: "bytes \<Rightarrow> nat \<Rightarrow> error + nat" where
  "unpack_L_at response base = unpack_L (take 4 (drop base response))"

definition scaled :: "error + nat \<Rightarrow> rat \<Rightarrow> error + rat" where
  "scaled r d = (case r of Inl e \<Rightarrow> Inl e | Inr v \<Rightarrow> Inr (of_nat v / d))"

definition Hm600_dc_voltage_0 :: "bytes \<Rightarrow> error + rat" where
  "Hm600_dc_voltage_0 response = scaled (unpack_H_at response 2) 10"

definition Hm600_dc_current_0 :: "bytes \<Rightarrow> error + rat" where
  "Hm600_dc_current_0 response = scaled (unpack_H_at response 4) 100"

definition Hm600_dc_power_0 :: "bytes \<Rightarrow> error + rat" where
  "Hm600_dc_power_0 response = scaled (unpack_H_at response 6) 10"

definition Hm600_dc_energy_total_0 :: "bytes \<Rightarrow> error + nat" where
  "Hm600_dc_energy_total_0 response = unpack_L_at response 14"

definition Hm600_dc_energy_daily_0 :: "bytes \<Rightarrow> error + nat" where
  "Hm600_dc_energy_daily_0 response = unpack_H_at response 22"

definition Hm600_dc_voltage_1 :: "bytes \<Rightarrow> error + rat" where
  "Hm600_dc_voltage_1 response = scaled (unpack_H_at response 8) 10"

definition Hm600_dc_current_1 :: "bytes \<Rightarrow> error + rat" where
  "Hm600_dc_current_1 response = scaled (unpack_H_at response 10) 100"

definition Hm600_dc_power_1 :: "bytes \<Rightarrow> error + rat" where
  "Hm600_dc_power_1 response = scaled (unpack_H_at response 12) 10"

definition Hm600_dc_energy_total_1 :: "bytes \<Rightarrow> error + nat" where
  "Hm600_dc_energy_total_1 response = unpack_L_at response 18"

definition Hm600_dc_energy_daily_1 :: "bytes \<Rightarrow> error + nat" where
  "Hm600_dc_energy_daily_1 response = unpack_H_at response 24"

definition Hm600_ac_voltage_0 :: "bytes \<Rightarrow> error + rat" where
  "Hm600_ac_voltage_0 response = scaled (unpack_H_at response 26) 10"

definition Hm600_ac_current_0 :: "bytes \<Rightarrow> error + rat" where
  "Hm600_ac_current_0 response = scaled (unpack_H_at response 34) 10"

definition Hm600_ac_power_0 :: "bytes \<Rightarrow> error + rat" where
  "Hm600_ac_power_0 response = scaled (unpack_H_at response 30) 10"

definition Hm600_frequency :: "bytes \<Rightarrow> error + rat" where
  "Hm600_frequency response = scaled (unpack_H_at response 28) 100"

definition Hm600_powerfactor :: "bytes \<Rightarrow> error + rat" where
  "Hm600_powerfactor response = scaled (unpack_H_at response 36) 1000"

definition Hm600_temperature :: "bytes \<Rightarrow> error + rat" where
  "Hm600_temperature response = scaled (unpack_H_at response 38) 10"

definition Hm600_event_count :: "bytes \<Rightarrow> error + nat" where
  "Hm600_event_count response = unpack_H_at response 40"

text \<open>The payload of scenario 2 as the specification prints it, and the payload that the
  three response fragments of the log in \<open>test.py\<close> reassemble to.\<close>

definition spec_payload :: bytes where
  "spec_payload =
     [0x01, 0x00, 0x01, 0x01, 0x4E, 0x00, 0x9D, 0x02, 0x0A, 0x01, 0x50, 0x00, 0x9D, 0x02,
      0x10, 0x00, 0x00, 0x88, 0x1F, 0x00, 0x00, 0x7F, 0x08, 0x00, 0x94, 0x00, 0x97, 0x08,
      0xE2, 0x13, 0x89, 0x03, 0xEB, 0x00, 0x2C, 0x03, 0xE8, 0x00, 0xD8, 0x00, 0x06]"

definition log_payload :: bytes where
  "log_payload =
     [0x00, 0x01, 0x01, 0x4E, 0x00, 0x9D, 0x02, 0x0A, 0x01, 0x50, 0x00, 0x9D, 0x02, 0x10,
      0x00, 0x00, 0x88, 0x1F, 0x00, 0x00, 0x7F, 0x08, 0x00, 0x94, 0x00, 0x97, 0x08, 0xE2,
      0x13, 0x89, 0x03, 0xEB, 0x00, 0x01, 0x00, 0x2C, 0x03, 0xE8, 0x00, 0xD8, 0x00, 0x06,
      0x0C, 0x35]"

section \<open>The receive loop of the radio\<close>

text \<open>
  The attributes of \<open>HoymilesNRF\<close> that the receive loop reads and writes, and the channel
  the radio device is tuned to. One pass of the loop body finds either no payload or a
  payload; the deadline only decides how many passes there are, so a run of the loop is
  the list of what its passes find, each with the clock reading of that pass.
\<close>

record HoymilesNRF =
  tx_channel_id :: nat
  tx_channel_list :: "nat list"
  rx_channel_id :: nat
  rx_channel_list :: "nat list"
  rx_channel_ack :: bool
  rx_error :: nat
  device_channel :: nat

definition tx_channel :: "HoymilesNRF \<Rightarrow> error + nat" where
  "tx_channel n =
     (if tx_channel_id n < length (tx_channel_list n)
      then Inr (tx_channel_list n ! tx_channel_id n) else Inl IndexError)"

definition rx_channel :: "HoymilesNRF \<Rightarrow> error + nat" where
  "rx_channel n =
     (if rx_channel_id n < length (rx_channel_list n)
      then Inr (rx_channel_list n ! rx_channel_id n) else Inl IndexError)"

definition next_rx_channel :: "HoymilesNRF \<Rightarrow> bool \<times> HoymilesNRF" where
  "next_rx_channel n =
     (if \<not> rx_channel_ack n
      then (let n1 = n\<lparr>rx_channel_id := rx_channel_id n + 1\<rparr>;
                n2 = (if rx_channel_id n1 \<ge> length (rx_channel_list n1)
                      then n1\<lparr>rx_channel_id := 0\<rparr> else n1)
            in (True, n2))
      else (False, n))"

text \<open>The branch of the loop body for an empty poll.\<close>

definition empty_poll :: "HoymilesNRF \<Rightarrow> (error + unit) \<times> HoymilesNRF" where
  "empty_poll n =
     (let n1 = n\<lparr>rx_error := rx_error n + 1\<rparr>;
          n2 = (if rx_error n1 > 1 then n1\<lparr>rx_channel_ack := False\<rparr> else n1);
          (hop, n3) = next_rx_channel n2
      in if hop
         then (case rx_channel n3 of
                 Inl e \<Rightarrow> (Inl e, n3)
               | Inr c \<Rightarrow> (Inr (), n3\<lparr>device_channel := c\<rparr>))
         else (Inr (), n3))"

text \<open>The branch for a received payload: it yields the parsed fragment or raises.\<close>

definition payload_poll ::
  "nat \<Rightarrow> bytes \<Rightarrow> HoymilesNRF \<Rightarrow> (error + InverterPacketFragment) \<times> HoymilesNRF"
where
  "payload_poll now payload n =
     (let n1 = n\<lparr>rx_error := 0, rx_channel_ack := True\<rparr>
      in case rx_channel n1 of
           Inl e \<Rightarrow> (Inl e, n1)
         | Inr c_rx \<Rightarrow>
             (case tx_channel n1 of
                Inl e \<Rightarrow> (Inl e, n1)
              | Inr c_tx \<Rightarrow>
                  (InverterPacketFragment_init now (Some now) payload (Some c_rx) (Some c_tx), n1)))"

text \<open>The loop: the fragments yielded so far, and the exception that ended the generator
  if one did.\<close>

fun receive_loop ::
  "(nat \<times> bytes option) list \<Rightarrow> HoymilesNRF \<Rightarrow>
     (InverterPacketFragment list \<times> error option) \<times> HoymilesNRF"
where
  "receive_loop [] n = (([], None), n)"
| "receive_loop ((now, None) # polls) n =
     (case empty_poll n of
        (Inl e, n') \<Rightarrow> (([], Some e), n')
      | (Inr _, n') \<Rightarrow> receive_loop polls n')"
| "receive_loop ((now, Some payload) # polls) n =
     (case payload_poll now payload n of
        (Inl e, n') \<Rightarrow> (([], Some e), n')
      | (Inr fragment, n') \<Rightarrow>
          (case receive_loop polls n' of
             ((fragments, err), n'') \<Rightarrow> ((fragment # fragments, err), n'')))"

definition receive ::
  "(nat \<times> bytes option) list \<Rightarrow> HoymilesNRF \<Rightarrow>
     (InverterPacketFragment list \<times> error option) \<times> HoymilesNRF"
where
  "receive polls n =
     (case rx_channel n of
        Inl e \<Rightarrow> (([], Some e), n)
      | Inr c \<Rightarrow> receive_loop polls (n\<lparr>device_channel := c\<rparr>))"

section \<open>Several transactions in one store\<close>

text \<open>
  The class body of \<open>InverterTransaction\<close> creates one list for \<open>tx_queue\<close> and one for
  \<open>scratch\<close>. \<open>__init__\<close> binds the instance attribute \<open>scratch\<close> to a new list, or to
  the caller's list \<open>params['scratch']\<close>; it never binds \<open>tx_queue\<close>, and no method
  assigns it, so \<open>self.tx_queue\<close> resolves to the list of the class. The store holds
  the list objects by address; an attribute of an instance is the address it is bound
  to, or \<open>None\<close> where the instance has no binding and the lookup falls back to the
  class. With a \<open>request\<close>, \<open>__init__\<close> queues it and unpacks \<open>request[1:11]\<close>.
\<close>

record store =
  queue_lists :: "nat \<Rightarrow> bytes list"
  frame_lists :: "nat \<Rightarrow> InverterPacketFragment list"
  next_ref :: nat

record object =
  attr_tx_queue :: "nat option"
  attr_scratch :: "nat option"
  attr_radio :: bool

definition class_tx_queue :: nat where
  "class_tx_queue = 0"

definition class_scratch :: nat where
  "class_scratch = 0"

definition store0 :: store where
  "store0 = \<lparr>queue_lists = (\<lambda>_. []), frame_lists = (\<lambda>_. []), next_ref = 1\<rparr>"

definition tx_queue_ref :: "object \<Rightarrow> nat" where
  "tx_queue_ref i = (case attr_tx_queue i of None \<Rightarrow> class_tx_queue | Some r \<Rightarrow> r)"

definition scratch_ref :: "object \<Rightarrow> nat" where
  "scratch_ref i = (case attr_scratch i of None \<Rightarrow> class_scratch | Some r \<Rightarrow> r)"

definition tx_queue_of :: "object \<Rightarrow> store \<Rightarrow> bytes list" where
  "tx_queue_of i st = queue_lists st (tx_queue_ref i)"

definition scratch_of :: "object \<Rightarrow> store \<Rightarrow> InverterPacketFragment list" where
  "scratch_of i st = frame_lists st (scratch_ref i)"

definition obj_queue_tx :: "bytes \<Rightarrow> object \<Rightarrow> store \<Rightarrow> bool \<times> store" where
  "obj_queue_tx f i st =
     (if \<not> attr_radio i then (False, st)
      else (True, st\<lparr>queue_lists := (queue_lists st)(tx_queue_ref i := tx_queue_of i st @ [f])\<rparr>))"

definition obj_frame_append :: "InverterPacketFragment \<Rightarrow> object \<Rightarrow> store \<Rightarrow> store" where
  "obj_frame_append f i st =
     st\<lparr>frame_lists := (frame_lists st)(scratch_ref i := scratch_of i st @ [f])\<rparr>"

text \<open>The head of \<open>rxtx\<close>: nothing to do without a radio or with an empty queue, else
  \<open>self.tx_queue.pop(0)\<close>.\<close>

definition obj_rxtx_pop :: "object \<Rightarrow> store \<Rightarrow> bytes option \<times> store" where
  "obj_rxtx_pop i st =
     (if \<not> attr_radio i then (None, st)
      else case tx_queue_of i st of
        [] \<Rightarrow> (None, st)
      | packet # rest \<Rightarrow>
          (Some packet, st\<lparr>queue_lists := (queue_lists st)(tx_queue_ref i := rest)\<rparr>))"

definition InverterTransaction_init ::
  "bool \<Rightarrow> nat option \<Rightarrow> bytes option \<Rightarrow> store \<Rightarrow> (error + object) \<times> store"
where
  "InverterTransaction_init radio_param scratch_param request_param st =
     (let r = next_ref st;
          st1 = st\<lparr>frame_lists := (frame_lists st)(r := []), next_ref := r + 1\<rparr>;
          self = \<lparr>attr_tx_queue = None,
                  attr_scratch = Some (case scratch_param of None \<Rightarrow> r | Some r' \<Rightarrow> r'),
                  attr_radio = radio_param\<rparr>
      in case request_param of
           None \<Rightarrow> (Inr self, st1)
         | Some request \<Rightarrow>
             (let st2 = snd (obj_queue_tx request self st1)
              in if length (take 10 (drop 1 request)) \<noteq> 10 then (Inl StructError, st2)
                 else (Inr self, st2)))"

text \<open>Two transactions made one after the other, both with a radio and neither with a
  request or a scratch of the caller's; then a frame queued on the first.\<close>

definition two_transactions :: "(object \<times> object) \<times> store" where
  "two_transactions =
     (case InverterTransaction_init True None None store0 of
        (Inr a, st1) \<Rightarrow>
          (case InverterTransaction_init True None None st1 of
             (Inr b, st2) \<Rightarrow> ((a, b), st2)))"

section \<open>The log of the test script\<close>

text \<open>The three response frames of the log in \<open>test.py\<close>, as fragments, and the
  transaction the script builds from the logged request: no radio, the addresses
  unpacked from the request. \<open>radio_txn\<close> is the same transaction with a radio and the
  serial of the DTU, as \<open>scan.py\<close> builds it.\<close>

definition log_frame_1 :: bytes where
  "log_frame_1 =
     [0x95, 0x72, 0x22, 0x01, 0x43, 0x72, 0x22, 0x01, 0x43, 0x01,
      0x00, 0x01, 0x01, 0x4e, 0x00, 0x9d, 0x02, 0x0a, 0x01, 0x50, 0x00, 0x9d, 0x02, 0x10,
      0x00, 0x00, 0x91]"

definition log_frame_2 :: bytes where
  "log_frame_2 =
     [0x95, 0x72, 0x22, 0x01, 0x43, 0x72, 0x22, 0x01, 0x43, 0x02,
      0x88, 0x1f, 0x00, 0x00, 0x7f, 0x08, 0x00, 0x94, 0x00, 0x97, 0x08, 0xe2, 0x13, 0x89,
      0x03, 0xeb, 0xec]"

definition log_frame_3 :: bytes where
  "log_frame_3 =
     [0x95, 0x72, 0x22, 0x01, 0x43, 0x72, 0x22, 0x01, 0x43, 0x83,
      0x00, 0x01, 0x00, 0x2c, 0x03, 0xe8, 0x00, 0xd8, 0x00, 0x06, 0x0c, 0x35, 0x37]"

definition fragment_of :: "nat \<Rightarrow> bytes \<Rightarrow> InverterPacketFragment" where
  "fragment_of t b = \<lparr>frame = b, time_rx = t, ch_rx = None, ch_tx = None\<rparr>"

definition log_txn :: InverterTransaction where
  "log_txn =
     \<lparr>tx_queue = [], scratch = [],
      inverter_ser = Some ''114172220143'', inverter_addr = AddrInt 0x72220143,
      dtu_ser = None, dtu_addr = AddrInt 0x78563412,
      req_type = Some 0x0b, txn_time_rx = None, radio = False\<rparr>"


text \<open>A radio with the class defaults of \<open>HoymilesNRF\<close>, and the same radio right after a
  reception (acknowledged, no miss counted) and on the last entry of its hop list.\<close>

definition default_nrf :: HoymilesNRF where
  "default_nrf =
     \<lparr>tx_channel_id = 0, tx_channel_list = [40], rx_channel_id = 0,
      rx_channel_list = [3, 23, 40, 61, 75], rx_channel_ack = False, rx_error = 0,
      device_channel = 0\<rparr>"

definition acked_nrf :: HoymilesNRF where
  "acked_nrf = default_nrf\<lparr>rx_channel_ack := True\<rparr>"

definition last_channel_nrf :: HoymilesNRF where
  "last_channel_nrf = default_nrf\<lparr>rx_channel_id := 4\<rparr>"

text \<open>A frame with sequence byte \<open>0x81\<close> that carries the whole set-time payload of the
  logged request with its checksum \<open>7E 58\<close>, and a second frame under the same address
  and sequence byte that carries the empty payload with its checksum \<open>FF FF\<close>.\<close>

definition single_frame :: bytes where
  "single_frame =
     [0x95, 0x72, 0x22, 0x01, 0x43, 0x72, 0x22, 0x01, 0x43, 0x81,
      0x0b, 0x00, 0x62, 0x6e, 0x60, 0xee, 0x00, 0x00, 0x00, 0x05, 0x00, 0x00, 0x00, 0x00,
      0x7e, 0x58, 0xbe]"

definition dup_frame :: bytes where
  "dup_frame = [0x95, 0x72, 0x22, 0x01, 0x43, 0x72, 0x22, 0x01, 0x43, 0x81, 0xff, 0xff, 0x14]"

definition full_txn :: InverterTransaction where
  "full_txn =
     log_txn\<lparr>scratch :=
       [fragment_of 1 log_frame_1, fragment_of 2 log_frame_2, fragment_of 3 log_frame_3]\<rparr>"


definition single_txn :: InverterTransaction where
  "single_txn = log_txn\<lparr>scratch := [fragment_of 1 single_frame]\<rparr>"

text \<open>Three requests from the DTU of the log to its inverter, the addresses as
  \<open>ser_to_hm_addr\<close> gives them: the set-time payload of the logged request, the 42 bytes
  that precede the checksum in the logged response, and 2031 zero bytes.\<close>

definition set_time_request :: RequestFactory where
  "set_time_request =
     \<lparr>rf_maincmd = [0x15], rf_source = [0x78, 0x56, 0x34, 0x12],
      rf_target = [0x72, 0x22, 0x01, 0x43], rf_subcmd = [],
      rf_payload = [0x0b, 0x00, 0x62, 0x6e, 0x60, 0xee, 0x00, 0x00, 0x00, 0x05, 0x00, 0x00,
                    0x00, 0x00]\<rparr>"

definition echo_request :: RequestFactory where
  "echo_request = set_time_request\<lparr>rf_payload := take 42 log_payload\<rparr>"

definition long_request :: RequestFactory where
  "long_request = set_time_request\<lparr>rf_payload := replicate 2031 0x00\<rparr>"

section \<open>Predicates of the statements\<close>

text \<open>\<open>from_src a f\<close>: the fragment passes the filter \<open>frame.src == a\<close>.
  \<open>seq_satisfies P f\<close>: its sequence byte can be read and satisfies \<open>P\<close>.\<close>

definition from_src :: "pyaddr \<Rightarrow> InverterPacketFragment \<Rightarrow> bool" where
  "from_src a f = (case src f of Inl _ \<Rightarrow> False | Inr n \<Rightarrow> int_eq n a)"

definition seq_satisfies :: "(nat \<Rightarrow> bool) \<Rightarrow> InverterPacketFragment \<Rightarrow> bool" where
  "seq_satisfies P f = (case seq f of Inl _ \<Rightarrow> False | Inr s \<Rightarrow> P s)"

text \<open>\<open>accepted x\<close>: the constructor of \<open>InverterPacketFragment\<close> accepts the frame of \<open>x\<close>
  and returns \<open>x\<close>.\<close>

definition accepted :: "InverterPacketFragment \<Rightarrow> bool" where
  "accepted x =
     (InverterPacketFragment_init (time_rx x) (Some (time_rx x)) (frame x) (ch_rx x) (ch_tx x)
        = Inr x)"

section \<open>Evaluation lemmas\<close>

lemma funpow_8: "(f ^^ 8) x = f (f (f (f (f (f (f (f x)))))))"
  by (simp add: eval_nat_numeral)

lemmas crc_eval = f_crc8_def f_crc_m_def bytecrc_r_def crc_shift_r_def funpow_8

lemma unpack_L_length: "length bs \<noteq> 4 \<Longrightarrow> unpack_L bs = Inl StructError"
  by (auto simp: unpack_L_def split: list.splits)

lemma lookup_model_nonempty: "lookup_model ser_db s = Some m \<Longrightarrow> m \<noteq> []"
  by (auto simp: ser_db_def split: if_splits)

section \<open>The accessor \<open>dst\<close>\<close>

text \<open>
  C4. The claim: on a parsed fragment of at least ten bytes, \<open>dst\<close> returns the 32-bit
  big-endian integer of frame bytes 5 to 8 and never fails. The accessor slices
  \<open>frame[5:8]\<close>, three bytes, and unpacks them with the four-byte format \<open>>L\<close>: it raises
  \<open>struct.error\<close> on every fragment, whatever its length. Its sibling \<open>src\<close> slices the
  four bytes \<open>frame[1:5]\<close> and succeeds, here on the first response frame of the log.
\<close>

theorem dst_raises_struct_error:
  "dst f = Inl StructError
   \<and> InverterPacketFragment_init 1 None log_frame_1 None None = Inr (fragment_of 1 log_frame_1)
   \<and> src (fragment_of 1 log_frame_1) = Inr 0x72220143"
proof -
  have "dst f = Inl StructError"
    unfolding dst_def by (rule unpack_L_length) simp
  moreover have "InverterPacketFragment_init 1 None log_frame_1 None None
      = Inr (fragment_of 1 log_frame_1)"
    by (simp add: InverterPacketFragment_init_def fragment_of_def log_frame_1_def crc_eval)
  moreover have "src (fragment_of 1 log_frame_1) = Inr 0x72220143"
    by (simp add: src_def fragment_of_def log_frame_1_def unpack_L_def)
  ultimately show ?thesis by simp
qed

section \<open>Model classification\<close>

text \<open>
  C5. The claim: a serial with prefix 1121, 1141 or 1161 is classified Hm300, Hm600 or
  Hm1200, and every other serial fails with \<open>NotImplementedError\<close>. On a serial that no
  pattern matches, \<open>model\<close> is still \<open>None\<close> when \<open>len(model)\<close> is evaluated, so the call
  fails with \<open>TypeError\<close>; no serial at all makes it fail with \<open>NotImplementedError\<close>.
\<close>

theorem inverter_model_unknown_serial:
  "inverter_model (Some ''999900000000'') = Inl TypeError
   \<and> inverter_model (Some ''114172220143'') = Inr ''Hm600''
   \<and> (\<forall>ser. inverter_model ser \<noteq> Inl NotImplementedError)"
proof -
  have "inverter_model (Some ''999900000000'') = Inl TypeError"
    by (simp add: inverter_model_def ser_db_def re_match_def str_of_serial_def)
  moreover have "inverter_model (Some ''114172220143'') = Inr ''Hm600''"
    by (simp add: inverter_model_def ser_db_def re_match_def str_of_serial_def)
  moreover have "inverter_model ser \<noteq> Inl NotImplementedError" for ser
    by (auto simp: inverter_model_def dest: lookup_model_nonempty split: option.splits)
  ultimately show ?thesis by simp
qed

section \<open>Ownership of the queue and the scratch\<close>

text \<open>
  C9. The claim: \<open>queue_tx\<close>, \<open>frame_append\<close> and the pop of \<open>rxtx\<close> on one transaction
  leave the \<open>tx_queue\<close> and the \<open>scratch\<close> of every other transaction unchanged. Of two
  transactions made one after the other, the second has an empty queue; after
  \<open>queue_tx\<close> on the first, the queue of the second holds the frame, and after the pop of
  \<open>rxtx\<close> on the second the queue of the first is empty again: both resolve \<open>tx_queue\<close> to
  the one list of the class. The scratch lists are apart: \<open>frame_append\<close> on the first
  leaves the scratch of the second as it was.
\<close>

theorem tx_queue_is_shared:
  "(case two_transactions of
      ((a, b), st) \<Rightarrow>
        tx_queue_of b st = []
        \<and> tx_queue_of b (snd (obj_queue_tx [0x15] a st)) = [[0x15]]
        \<and> tx_queue_of a (snd (obj_rxtx_pop b (snd (obj_queue_tx [0x15] a st)))) = []
        \<and> scratch_of b (obj_frame_append (fragment_of 1 log_frame_1) a st) = scratch_of b st)"
  by (simp add: two_transactions_def InverterTransaction_init_def store0_def tx_queue_of_def
      obj_queue_tx_def obj_rxtx_pop_def tx_queue_ref_def class_tx_queue_def scratch_of_def
      obj_frame_append_def scratch_ref_def)

section \<open>The HM600 status decoder\<close>

text \<open>
  C3, as the claim states it, fails: the 41 bytes that the specification prints start
  with the sequence byte \<open>01\<close> of the first fragment, so every field lies one byte
  before the offset the decoder reads, and string 1 decodes to 25.7 V, not 33.4 V.
\<close>

theorem spec_payload_decodes_shifted:
  "Hm600_dc_voltage_0 spec_payload = Inr 25.7 \<and> Hm600_dc_voltage_0 spec_payload \<noteq> Inr 33.4"
  by (simp add: Hm600_dc_voltage_0_def scaled_def unpack_H_at_def spec_payload_def unpack_H_def)

text \<open>
  C3, amended. Decoding the payload that the transaction reassembles from the three
  response fragments of the log (the bytes of the specification without the leading
  \<open>01\<close>, with \<open>00 01\<close> before \<open>00 2C\<close>, and with the checksum \<open>0C 35\<close>) yields string 1
  33.4 V, 1.57 A, 52.2 W; string 2 33.6 V, 1.57 A, 52.8 W; AC 227.4 V, 50.01 Hz,
  100.3 W, and 21.6 degrees; each DC current is the big-endian \<open>u16\<close> at its offset (4 and
  10, both 157) divided by 100.
\<close>

theorem Hm600_decodes_log_payload:
  "Hm600_dc_voltage_0 log_payload = Inr 33.4
   \<and> Hm600_dc_current_0 log_payload = Inr 1.57
   \<and> Hm600_dc_power_0 log_payload = Inr 52.2
   \<and> Hm600_dc_voltage_1 log_payload = Inr 33.6
   \<and> Hm600_dc_current_1 log_payload = Inr 1.57
   \<and> Hm600_dc_power_1 log_payload = Inr 52.8
   \<and> Hm600_ac_voltage_0 log_payload = Inr 227.4
   \<and> Hm600_frequency log_payload = Inr 50.01
   \<and> Hm600_ac_power_0 log_payload = Inr 100.3
   \<and> Hm600_temperature log_payload = Inr 21.6
   \<and> unpack_H_at log_payload 4 = Inr 157
   \<and> unpack_H_at log_payload 10 = Inr 157"
  by (simp add: Hm600_dc_voltage_0_def Hm600_dc_current_0_def Hm600_dc_power_0_def
      Hm600_dc_voltage_1_def Hm600_dc_current_1_def Hm600_dc_power_1_def
      Hm600_ac_voltage_0_def Hm600_frequency_def Hm600_ac_power_0_def Hm600_temperature_def
      scaled_def unpack_H_at_def log_payload_def unpack_H_def)

section \<open>Channel hopping\<close>

text \<open>
  C8, as the claim states it, fails: on a channel that is not acknowledged the index
  advances on every empty poll, not once per two of them. Two empty polls of the
  default radio move it from entry 0 to entry 2.
\<close>

theorem hops_on_every_empty_poll:
  "\<not> rx_channel_ack default_nrf \<and> rx_channel_id default_nrf = 0
   \<and> rx_channel_id (snd (receive_loop [(1, None), (2, None)] default_nrf)) = 2"
  by (simp add: default_nrf_def empty_poll_def next_rx_channel_def rx_channel_def Let_def)

text \<open>
  C8, amended. Every empty poll counts one more miss and leaves the hop list as it is.
  An empty poll advances the channel index exactly once when the channel is not
  acknowledged or a miss has been counted since the last reception, and leaves the
  channel not acknowledged. Right after a reception (acknowledged, no miss counted) the
  first empty poll advances nothing and leaves the channel acknowledged, and the second
  clears the acknowledgement and advances once: two empty polls of the receive loop
  move the index by one. \<open>next_rx_channel\<close> never advances while the channel is
  acknowledged. An advance past the last entry of the hop list wraps to the first.
\<close>

theorem empty_poll_hops:
  "rx_error (snd (empty_poll n)) = rx_error n + 1
   \<and> rx_channel_list (snd (empty_poll n)) = rx_channel_list n
   \<and> (\<not> rx_channel_ack n \<or> 1 \<le> rx_error n \<longrightarrow>
      rx_channel_id (snd (empty_poll n)) =
        (if rx_channel_id n + 1 \<ge> length (rx_channel_list n) then 0 else rx_channel_id n + 1)
      \<and> \<not> rx_channel_ack (snd (empty_poll n)))
   \<and> (rx_channel_ack n \<and> rx_error n = 0 \<longrightarrow>
      rx_channel_id (snd (empty_poll n)) = rx_channel_id n
      \<and> rx_channel_ack (snd (empty_poll n))
      \<and> rx_channel_id (snd (empty_poll (snd (empty_poll n)))) =
        (if rx_channel_id n + 1 \<ge> length (rx_channel_list n) then 0 else rx_channel_id n + 1)
      \<and> \<not> rx_channel_ack (snd (empty_poll (snd (empty_poll n))))
      \<and> snd (receive_loop [(t1, None), (t2, None)] n) = snd (empty_poll (snd (empty_poll n))))
   \<and> (rx_channel_ack n \<longrightarrow> next_rx_channel n = (False, n))"
proof -
  have e: "rx_error (snd (empty_poll m)) = rx_error m + 1" for m
    by (auto simp: empty_poll_def next_rx_channel_def Let_def split: sum.splits)
  have l: "rx_channel_list (snd (empty_poll m)) = rx_channel_list m" for m
    by (auto simp: empty_poll_def next_rx_channel_def Let_def split: sum.splits)
  have hop: "\<not> rx_channel_ack m \<or> 1 \<le> rx_error m \<Longrightarrow>
      rx_channel_id (snd (empty_poll m)) =
        (if rx_channel_id m + 1 \<ge> length (rx_channel_list m) then 0 else rx_channel_id m + 1)
      \<and> \<not> rx_channel_ack (snd (empty_poll m))" for m
    by (auto simp: empty_poll_def next_rx_channel_def Let_def split: sum.splits)
  have stay: "rx_channel_ack m \<and> rx_error m = 0 \<Longrightarrow>
      rx_channel_id (snd (empty_poll m)) = rx_channel_id m
      \<and> rx_channel_ack (snd (empty_poll m)) \<and> fst (empty_poll m) = Inr ()" for m
    by (auto simp: empty_poll_def next_rx_channel_def Let_def split: sum.splits)
  have two: "rx_channel_ack n \<and> rx_error n = 0 \<Longrightarrow>
      rx_channel_id (snd (empty_poll (snd (empty_poll n)))) =
        (if rx_channel_id n + 1 \<ge> length (rx_channel_list n) then 0 else rx_channel_id n + 1)
      \<and> \<not> rx_channel_ack (snd (empty_poll (snd (empty_poll n))))"
    using hop [of "snd (empty_poll n)"] stay [of n] by (simp add: e l)
  have loop: "rx_channel_ack n \<and> rx_error n = 0 \<Longrightarrow>
      snd (receive_loop [(t1, None), (t2, None)] n) = snd (empty_poll (snd (empty_poll n)))"
    using stay [of n]
    by (cases "empty_poll n"; cases "empty_poll (snd (empty_poll n))")
       (auto split: sum.splits)
  have nx: "rx_channel_ack n \<Longrightarrow> next_rx_channel n = (False, n)"
    by (simp add: next_rx_channel_def)
  show ?thesis
    using e [of n] l [of n] hop [of n] stay [of n] two loop nx by blast
qed

theorem empty_poll_hops_witness:
  "\<not> rx_channel_ack default_nrf
   \<and> rx_channel_id (snd (empty_poll default_nrf)) = 1
   \<and> rx_error (snd (empty_poll default_nrf)) = 1
   \<and> rx_channel_id (snd (empty_poll last_channel_nrf)) = 0
   \<and> rx_channel_ack acked_nrf \<and> rx_error acked_nrf = 0
   \<and> rx_channel_id (snd (empty_poll acked_nrf)) = 0
   \<and> rx_channel_ack (snd (empty_poll acked_nrf))
   \<and> rx_channel_id (snd (empty_poll (snd (empty_poll acked_nrf)))) = 1
   \<and> \<not> rx_channel_ack (snd (empty_poll (snd (empty_poll acked_nrf))))
   \<and> rx_channel_id (snd (receive_loop [(1, None), (2, None)] acked_nrf)) = 1
   \<and> next_rx_channel acked_nrf = (False, acked_nrf)"
  using empty_poll_hops [of default_nrf] empty_poll_hops [of last_channel_nrf]
    empty_poll_hops [of acked_nrf 1 2]
  by (simp add: default_nrf_def acked_nrf_def last_channel_nrf_def)

section \<open>Lemmas on the steps of \<open>get_payload\<close>\<close>



lemma seq_main_cmd: "seq f = Inr s \<Longrightarrow> main_cmd f = Inr (unat (hd (frame f)))"
  by (cases "frame f") (auto simp: seq_def unpack_B_def main_cmd_def split: list.splits)

lemma frames_from_filter:
  "\<forall>f\<in>set fs. \<exists>n. src f = Inr n \<Longrightarrow> frames_from a fs = Inr (filter (from_src a) fs)"
  by (induction fs) (auto simp: from_src_def)

lemma next_frame_find:
  "\<forall>f\<in>set fs. \<exists>s. seq f = Inr s \<Longrightarrow> next_frame P fs = Inr (find (seq_satisfies P) fs)"
  by (induction fs) (auto simp: seq_satisfies_def)

lemma rebuild_found:
  "\<forall>j\<in>set js. next_frame (\<lambda>s. s = j) frames = Inr (Some (d j)) \<Longrightarrow>
   rebuild frames js acc = Rebuilt (acc @ concat (map (\<lambda>j. data (d j)) js))"
  by (induction js arbitrary: acc) auto




section \<open>The fields of the logged fragments\<close>

lemma log_fragment_1: "src (fragment_of t log_frame_1) = Inr 0x72220143"
  "seq (fragment_of t log_frame_1) = Inr 1"
  "main_cmd (fragment_of t log_frame_1) = Inr 0x95"
  "data (fragment_of t log_frame_1) = [0x00, 0x01, 0x01, 0x4e, 0x00, 0x9d, 0x02, 0x0a, 0x01, 0x50, 0x00, 0x9d, 0x02, 0x10, 0x00, 0x00]"
  by (simp_all add: fragment_of_def log_frame_1_def src_def seq_def main_cmd_def data_def unpack_L_def unpack_B_def)

lemma log_fragment_2: "src (fragment_of t log_frame_2) = Inr 0x72220143"
  "seq (fragment_of t log_frame_2) = Inr 2"
  "main_cmd (fragment_of t log_frame_2) = Inr 0x95"
  "data (fragment_of t log_frame_2) = [0x88, 0x1f, 0x00, 0x00, 0x7f, 0x08, 0x00, 0x94, 0x00, 0x97, 0x08, 0xe2, 0x13, 0x89, 0x03, 0xeb]"
  by (simp_all add: fragment_of_def log_frame_2_def src_def seq_def main_cmd_def data_def unpack_L_def unpack_B_def)

lemma log_fragment_3: "src (fragment_of t log_frame_3) = Inr 0x72220143"
  "seq (fragment_of t log_frame_3) = Inr 0x83"
  "main_cmd (fragment_of t log_frame_3) = Inr 0x95"
  "data (fragment_of t log_frame_3) = [0x00, 0x01, 0x00, 0x2c, 0x03, 0xe8, 0x00, 0xd8, 0x00, 0x06, 0x0c, 0x35]"
  by (simp_all add: fragment_of_def log_frame_3_def src_def seq_def main_cmd_def data_def unpack_L_def unpack_B_def)

lemma fragment_of_sel: "frame (fragment_of t b) = b" "time_rx (fragment_of t b) = t"
  by (simp_all add: fragment_of_def)

lemma single_fragment: "src (fragment_of t single_frame) = Inr 0x72220143"
  "seq (fragment_of t single_frame) = Inr 0x81"
  "main_cmd (fragment_of t single_frame) = Inr 0x95"
  "data (fragment_of t single_frame) = [0x0b, 0x00, 0x62, 0x6e, 0x60, 0xee, 0x00, 0x00, 0x00, 0x05, 0x00, 0x00, 0x00, 0x00, 0x7e, 0x58]"
  by (simp_all add: fragment_of_def single_frame_def src_def seq_def main_cmd_def data_def unpack_L_def unpack_B_def)


section \<open>Reassembly\<close>

text \<open>
  C10. When no fragment of the scratch satisfies \<open>frame.src == src\<close> (\<open>src\<close> being the
  address \<open>get_payload\<close> filters by: its parameter, or \<open>inverter_addr\<close> where the
  parameter is not truthy; and \<open>frame.src\<close> evaluating on every fragment), in particular
  when the scratch is empty, \<open>get_payload\<close> fails with the \<open>ValueError\<close> of \<open>max\<close> on an
  empty sequence, not with a \<open>BufferError\<close>, and leaves the transaction as it was: no
  retransmit request is queued.
\<close>

theorem get_payload_empty_filter:
  assumes "\<forall>f\<in>set (scratch t). \<exists>n. src f = Inr n \<and> \<not> int_eq n (filter_src src_param t)"
  shows "get_payload src_param t = (Inl ValueError_max_empty, t)"
proof -
  have "\<forall>f\<in>set (scratch t). \<exists>n. src f = Inr n" using assms by blast
  then have "frames_from (filter_src src_param t) (scratch t)
      = Inr (filter (from_src (filter_src src_param t)) (scratch t))"
    by (rule frames_from_filter)
  moreover have "filter (from_src (filter_src src_param t)) (scratch t) = []"
    using assms by (auto simp: filter_empty_conv from_src_def)
  ultimately show ?thesis by (simp add: get_payload_def)
qed

theorem get_payload_empty_filter_witness:
  "get_payload AddrNone log_txn = (Inl ValueError_max_empty, log_txn)
   \<and> get_payload (AddrInt 5) full_txn = (Inl ValueError_max_empty, full_txn)
   \<and> tx_queue (snd (get_payload (AddrInt 5) (full_txn\<lparr>radio := True\<rparr>))) = []"
proof -
  have "\<forall>f\<in>set (scratch log_txn). \<exists>n. src f = Inr n \<and> \<not> int_eq n (filter_src AddrNone log_txn)"
    by (simp add: log_txn_def)
  moreover have "\<forall>f\<in>set (scratch full_txn).
      \<exists>n. src f = Inr n \<and> \<not> int_eq n (filter_src (AddrInt 5) full_txn)"
    by (simp add: full_txn_def log_txn_def filter_src_def log_fragment_1 log_fragment_2 log_fragment_3)
  moreover have "\<forall>f\<in>set (scratch (full_txn\<lparr>radio := True\<rparr>)).
      \<exists>n. src f = Inr n \<and> \<not> int_eq n (filter_src (AddrInt 5) (full_txn\<lparr>radio := True\<rparr>))"
    by (simp add: full_txn_def log_txn_def filter_src_def log_fragment_1 log_fragment_2 log_fragment_3)
  ultimately show ?thesis
    using get_payload_empty_filter [of log_txn AddrNone]
      get_payload_empty_filter [of full_txn "AddrInt 5"]
      get_payload_empty_filter [of "full_txn\<lparr>radio := True\<rparr>" "AddrInt 5"]
    by (simp add: full_txn_def log_txn_def)
qed

text \<open>
  C1, as the claim states it, fails: \<open>get_payload\<close> returns the reassembled payload with
  its checksum, not without. On a single terminal fragment with sequence byte \<open>0x81\<close> it
  returns the whole data of the fragment, the two checksum bytes included.
\<close>

theorem get_payload_keeps_crc:
  "fst (get_payload AddrNone single_txn) = Inr (0x95, data (fragment_of 1 single_frame))
   \<and> fst (get_payload AddrNone single_txn)
       \<noteq> Inr (0x95, take (length (data (fragment_of 1 single_frame)) - 2)
                       (data (fragment_of 1 single_frame)))"
  by (simp add: get_payload_def single_txn_def log_txn_def filter_src_def single_fragment
      check_crc_def unpack_H_def crc_eval)

text \<open>
  C1, amended. Let \<open>frames\<close> be the fragments of the scratch from the filtered source,
  every \<open>src\<close> and \<open>seq\<close> among them evaluating. If the first of them with a sequence
  byte above \<open>0x80\<close> is \<open>e\<close> with \<open>seq = 0x80 + N\<close>, the first with sequence byte \<open>j\<close> is
  \<open>d j\<close> for every \<open>j\<close> from 1 to \<open>N - 1\<close>, and the concatenated data regions end in the
  big-endian Modbus CRC-16 of what precedes it, then \<open>get_payload\<close> returns the main
  command byte of \<open>e\<close> with the whole concatenation, checksum included, and records the
  reception time of \<open>e\<close>. With \<open>N = 1\<close> the payload is the data of \<open>e\<close>.
\<close>

theorem get_payload_reassembles:
  assumes srcs: "\<forall>f\<in>set (scratch t). \<exists>n. src f = Inr n"
    and frames: "frames = filter (from_src (filter_src src_param t)) (scratch t)"
    and seqs: "\<forall>f\<in>set frames. \<exists>s. seq f = Inr s"
    and terminal: "find (seq_satisfies (\<lambda>s. 0x80 < s)) frames = Some e"
    and N: "seq e = Inr (0x80 + N)"
    and parts: "\<forall>j\<in>{1..<N}. find (seq_satisfies (\<lambda>s. s = j)) frames = Some (d j)"
    and payload: "payload = concat (map (\<lambda>j. data (d j)) [1..<N]) @ data e"
    and crc: "unpack_H (drop (length payload - 2) payload)
        = Inr (unat (f_crc_m (take (length payload - 2) payload)))"
  shows "get_payload src_param t =
     (Inr (unat (hd (frame e)), payload), t\<lparr>txn_time_rx := Some (time_rx e)\<rparr>)"
proof -
  have ff: "frames_from (filter_src src_param t) (scratch t) = Inr frames"
    using srcs frames by (simp add: frames_from_filter)
  have nf: "next_frame P frames = Inr (find (seq_satisfies P) frames)" for P
    using seqs by (rule next_frame_find)
  have "\<forall>j\<in>set [1..<N]. next_frame (\<lambda>s. s = j) frames = Inr (Some (d j))"
    using parts by (simp add: nf)
  then have rb: "rebuild frames [1..<N] [] = Rebuilt (concat (map (\<lambda>j. data (d j)) [1..<N]))"
    using rebuild_found [of "[1..<N]" frames d "[]"] by simp
  have cc: "check_crc e payload = Inr (unat (hd (frame e)), payload)"
    using crc seq_main_cmd [OF N] by (simp add: check_crc_def)
  show ?thesis
    using rb cc by (simp add: get_payload_def ff nf terminal N Let_def payload)
qed

theorem get_payload_reassembles_witness:
  "get_payload AddrNone full_txn = (Inr (0x95, log_payload), full_txn\<lparr>txn_time_rx := Some 3\<rparr>)
   \<and> get_payload AddrNone single_txn =
       (Inr (0x95, data (fragment_of 1 single_frame)), single_txn\<lparr>txn_time_rx := Some 1\<rparr>)"
proof -
  let ?f1 = "fragment_of 1 log_frame_1" and ?f2 = "fragment_of 2 log_frame_2"
    and ?f3 = "fragment_of 3 log_frame_3" and ?g = "fragment_of 1 single_frame"
  have a1: "\<forall>f\<in>set (scratch full_txn). \<exists>n. src f = Inr n"
    by (simp add: full_txn_def log_fragment_1 log_fragment_2 log_fragment_3)
  have a2: "[?f1, ?f2, ?f3] = filter (from_src (filter_src AddrNone full_txn)) (scratch full_txn)"
    by (simp add: from_src_def filter_src_def full_txn_def log_txn_def log_fragment_1 log_fragment_2
        log_fragment_3)
  have a3: "\<forall>f\<in>set [?f1, ?f2, ?f3]. \<exists>s. seq f = Inr s"
    by (simp add: log_fragment_1 log_fragment_2 log_fragment_3)
  have a4: "find (seq_satisfies (\<lambda>s. 0x80 < s)) [?f1, ?f2, ?f3] = Some ?f3"
    by (simp add: seq_satisfies_def log_fragment_1 log_fragment_2 log_fragment_3)
  have a5: "seq ?f3 = Inr (0x80 + 3)"
    by (simp add: log_fragment_3)
  have a6: "\<forall>j\<in>{1..<3}. find (seq_satisfies (\<lambda>s. s = j)) [?f1, ?f2, ?f3]
      = Some (if j = 1 then ?f1 else ?f2)"
  proof
    fix j :: nat assume "j \<in> {1..<3}"
    then have "j = 1 \<or> j = 2" by auto
    then show "find (seq_satisfies (\<lambda>s. s = j)) [?f1, ?f2, ?f3] = Some (if j = 1 then ?f1 else ?f2)"
      by (auto simp: seq_satisfies_def log_fragment_1 log_fragment_2 log_fragment_3)
  qed
  have a7: "log_payload = concat (map (\<lambda>j. data (if j = 1 then ?f1 else ?f2)) [1..<3]) @ data ?f3"
    by (simp add: log_payload_def upt_rec log_fragment_1 log_fragment_2 log_fragment_3)
  have a8: "unpack_H (drop (length log_payload - 2) log_payload)
      = Inr (unat (f_crc_m (take (length log_payload - 2) log_payload)))"
    by (simp add: log_payload_def unpack_H_def crc_eval)
  have b1: "\<forall>f\<in>set (scratch single_txn). \<exists>n. src f = Inr n"
    by (simp add: single_txn_def single_fragment)
  have b2: "[?g] = filter (from_src (filter_src AddrNone single_txn)) (scratch single_txn)"
    by (simp add: from_src_def filter_src_def single_txn_def log_txn_def single_fragment)
  have b3: "\<forall>f\<in>set [?g]. \<exists>s. seq f = Inr s"
    by (simp add: single_fragment)
  have b4: "find (seq_satisfies (\<lambda>s. 0x80 < s)) [?g] = Some ?g"
    by (simp add: seq_satisfies_def single_fragment)
  have b5: "seq ?g = Inr (0x80 + 1)"
    by (simp add: single_fragment)
  have b6: "\<forall>j\<in>{1..<1}. find (seq_satisfies (\<lambda>s. s = j)) [?g] = Some ?g"
    by simp
  have b7: "data ?g = concat (map (\<lambda>j. data ?g) [1..<1]) @ data ?g"
    by simp
  have b8: "unpack_H (drop (length (data ?g) - 2) (data ?g))
      = Inr (unat (f_crc_m (take (length (data ?g) - 2) (data ?g))))"
    by (simp add: single_fragment unpack_H_def crc_eval)
  show ?thesis
    using get_payload_reassembles [OF a1 a2 a3 a4 a5 a6 a7 a8]
      get_payload_reassembles [OF b1 b2 b3 b4 b5 b6 b7 b8]
    by (simp add: fragment_of_sel log_frame_3_def single_frame_def)
qed




section \<open>Duplicates in the scratch\<close>

lemma fold_frame_append: "fold frame_append later t = t\<lparr>scratch := scratch t @ later\<rparr>"
  by (induction later arbitrary: t) (simp_all add: frame_append_def)

lemma frames_from_append:
  "frames_from a (xs @ ys) =
     (case frames_from a xs of
        Inl e \<Rightarrow> Inl e
      | Inr fx \<Rightarrow> (case frames_from a ys of Inl e \<Rightarrow> Inl e | Inr fy \<Rightarrow> Inr (fx @ fy)))"
  by (induction xs) (auto split: sum.splits)

lemma frames_from_mem:
  "frames_from a xs = Inr fx \<Longrightarrow> f \<in> set xs \<Longrightarrow> src f = Inr n \<Longrightarrow> int_eq n a \<Longrightarrow> f \<in> set fx"
  by (induction xs arbitrary: fx) (auto split: sum.splits if_splits)

lemma next_frame_skip:
  "seq f2 = Inr s \<Longrightarrow> \<not> P s \<Longrightarrow> next_frame P (G @ f2 # Z) = next_frame P (G @ Z)"
  by (induction G) (auto split: sum.splits)

lemma next_frame_prefix:
  "f1 \<in> set G \<Longrightarrow> seq f1 = Inr s \<Longrightarrow> P s \<Longrightarrow> next_frame P (G @ Y) = next_frame P (G @ Y')"
  by (induction G) (auto split: sum.splits)

lemma next_frame_duplicate:
  assumes "f1 \<in> set G" "seq f1 = Inr s" "seq f2 = Inr s"
  shows "next_frame P (G @ f2 # Z) = next_frame P (G @ Z)"
proof (cases "P s")
  case True
  with assms(1,2) show ?thesis by (rule next_frame_prefix)
next
  case False
  with assms(3) show ?thesis by (rule next_frame_skip)
qed

lemma rebuild_cong:
  "(\<And>P. next_frame P F' = next_frame P F) \<Longrightarrow> rebuild F' ids acc = rebuild F ids acc"
  by (induction ids arbitrary: acc) (auto split: sum.splits option.splits)

lemma get_payload_frames_error:
  "frames_from (filter_src x t) (scratch t) = Inl e \<Longrightarrow> fst (get_payload x t) = Inl e"
  by (simp add: get_payload_def)

lemma get_payload_success_cong:
  assumes F: "frames_from (filter_src x t) (scratch t) = Inr F"
    and F': "frames_from (filter_src x t) S' = Inr F'"
    and nf: "\<And>P. next_frame P F' = next_frame P F"
  shows "fst (get_payload x (t\<lparr>scratch := S'\<rparr>)) = Inr r \<longleftrightarrow> fst (get_payload x t) = Inr r"
proof -
  have rb: "rebuild F' ids acc = rebuild F ids acc" for ids acc
    using nf by (rule rebuild_cong)
  have fs: "filter_src x (t\<lparr>scratch := S'\<rparr>) = filter_src x t"
    by (simp add: filter_src_def)
  show ?thesis
    by (simp add: get_payload_def fs F F' nf rb Let_def
        split: sum.splits option.splits rebuilt.splits prod.splits)
qed


lemma dup_fragment: "src (fragment_of t dup_frame) = Inr 0x72220143"
  "seq (fragment_of t dup_frame) = Inr 0x81"
  "main_cmd (fragment_of t dup_frame) = Inr 0x95"
  "data (fragment_of t dup_frame) = [0xff, 0xff]"
  by (simp_all add: fragment_of_def dup_frame_def src_def seq_def main_cmd_def data_def
      unpack_L_def unpack_B_def)

text \<open>
  C7, as the claim states it, fails: \<open>frame_append\<close> appends and replaces nothing, and
  \<open>get_payload\<close> takes the first fragment of a sequence byte. After a fragment with
  sequence byte \<open>0x81\<close> and a second one of the same source and sequence byte but other
  data, the scratch holds both, and \<open>get_payload\<close> returns the data of the earlier one,
  where the later one alone would give its own.
\<close>

theorem duplicate_not_replacing:
  "src (fragment_of 2 dup_frame) = src (fragment_of 1 single_frame)
   \<and> seq (fragment_of 2 dup_frame) = seq (fragment_of 1 single_frame)
   \<and> data (fragment_of 2 dup_frame) \<noteq> data (fragment_of 1 single_frame)
   \<and> scratch (frame_append (fragment_of 2 dup_frame)
         (frame_append (fragment_of 1 single_frame) log_txn))
       = [fragment_of 1 single_frame, fragment_of 2 dup_frame]
   \<and> fst (get_payload AddrNone (frame_append (fragment_of 2 dup_frame)
         (frame_append (fragment_of 1 single_frame) log_txn)))
       = Inr (0x95, data (fragment_of 1 single_frame))
   \<and> fst (get_payload AddrNone (frame_append (fragment_of 2 dup_frame) log_txn))
       = Inr (0x95, data (fragment_of 2 dup_frame))"
  by (simp add: get_payload_def frame_append_def log_txn_def filter_src_def single_fragment
      dup_fragment check_crc_def unpack_H_def crc_eval)

text \<open>
  C7, amended. A fragment appended with \<open>frame_append\<close> goes to the end of the scratch
  and replaces nothing. If the scratch already holds a fragment of the same \<open>src\<close> and
  \<open>seq\<close>, the later one is ignored by reassembly: whatever is appended afterwards,
  \<open>get_payload\<close> returns a payload with the duplicate in the scratch exactly when it
  returns that payload without it.
\<close>

theorem duplicate_is_ignored:
  assumes f1: "f1 \<in> set (scratch t)"
    and src1: "src f1 = Inr n" and src2: "src f2 = Inr n"
    and seq1: "seq f1 = Inr s" and seq2: "seq f2 = Inr s"
  shows "scratch (frame_append f2 t) = scratch t @ [f2]
     \<and> (fst (get_payload x (fold frame_append later (frame_append f2 t))) = Inr r
          \<longleftrightarrow> fst (get_payload x (fold frame_append later t)) = Inr r)"
proof -
  let ?a = "filter_src x t"
  let ?t0 = "t\<lparr>scratch := scratch t @ later\<rparr>"
  have t0: "fold frame_append later t = ?t0"
    by (rule fold_frame_append)
  have t': "fold frame_append later (frame_append f2 t) = ?t0\<lparr>scratch := scratch t @ f2 # later\<rparr>"
    by (simp add: fold_frame_append frame_append_def)
  have fs: "filter_src x ?t0 = ?a"
    by (simp add: filter_src_def)
  have ins: "frames_from ?a (scratch t @ f2 # later) =
     (case frames_from ?a (scratch t) of
        Inl e \<Rightarrow> Inl e
      | Inr fa \<Rightarrow>
          (case frames_from ?a later of
             Inl e \<Rightarrow> Inl e
           | Inr fz \<Rightarrow> Inr (fa @ (if int_eq n ?a then f2 # fz else fz))))"
    by (simp add: frames_from_append src2 split: sum.splits)
  have fsS: "filter_src x (t\<lparr>scratch := S\<rparr>) = ?a" for S
    by (simp add: filter_src_def)
  have iff: "fst (get_payload x (t\<lparr>scratch := scratch t @ f2 # later\<rparr>)) = Inr r
      \<longleftrightarrow> fst (get_payload x ?t0) = Inr r"
  proof (cases "frames_from ?a (scratch t @ later)")
    case (Inl e)
    then have "\<exists>e'. frames_from ?a (scratch t @ f2 # later) = Inl e'"
      by (auto simp: ins frames_from_append split: sum.splits)
    then obtain e' where e': "frames_from ?a (scratch t @ f2 # later) = Inl e'" ..
    have "fst (get_payload x (t\<lparr>scratch := scratch t @ f2 # later\<rparr>)) = Inl e'"
      using e' get_payload_frames_error [of x "t\<lparr>scratch := scratch t @ f2 # later\<rparr>" e']
      by (simp add: fsS)
    moreover have "fst (get_payload x ?t0) = Inl e"
      using Inl get_payload_frames_error [of x ?t0 e] by (simp add: fsS)
    ultimately show ?thesis by simp
  next
    case (Inr F)
    then obtain fa fz where fa: "frames_from ?a (scratch t) = Inr fa"
      and fz: "frames_from ?a later = Inr fz" and F: "F = fa @ fz"
      by (auto simp: frames_from_append split: sum.splits)
    have F0: "frames_from (filter_src x ?t0) (scratch ?t0) = Inr F"
      using Inr by (simp add: fsS)
    let ?F' = "fa @ (if int_eq n ?a then f2 # fz else fz)"
    have F': "frames_from (filter_src x ?t0) (scratch t @ f2 # later) = Inr ?F'"
      by (simp add: fsS ins fa fz)
    have nf: "next_frame P ?F' = next_frame P F" for P
    proof (cases "int_eq n ?a")
      case True
      then have "f1 \<in> set fa" using frames_from_mem [OF fa f1 src1] by simp
      then show ?thesis using True seq1 seq2 by (simp add: F next_frame_duplicate)
    next
      case False
      then show ?thesis by (simp add: F)
    qed
    have "fst (get_payload x (?t0\<lparr>scratch := scratch t @ f2 # later\<rparr>)) = Inr r
      \<longleftrightarrow> fst (get_payload x ?t0) = Inr r"
      using F0 F' nf by (rule get_payload_success_cong)
    then show ?thesis by simp
  qed
  show ?thesis
    using iff unfolding t0 t' by (simp add: frame_append_def)
qed

theorem duplicate_is_ignored_witness:
  "fragment_of 1 single_frame \<in> set (scratch single_txn)
   \<and> src (fragment_of 2 dup_frame) = src (fragment_of 1 single_frame)
   \<and> seq (fragment_of 2 dup_frame) = seq (fragment_of 1 single_frame)
   \<and> scratch (frame_append (fragment_of 2 dup_frame) single_txn)
       = [fragment_of 1 single_frame, fragment_of 2 dup_frame]
   \<and> fst (get_payload AddrNone (frame_append (fragment_of 2 dup_frame) single_txn))
       = Inr (0x95, data (fragment_of 1 single_frame))"
proof -
  let ?f1 = "fragment_of 1 single_frame" and ?f2 = "fragment_of 2 dup_frame"
  have a1: "?f1 \<in> set (scratch single_txn)"
    by (simp add: single_txn_def)
  have a2: "src ?f1 = Inr 0x72220143" "src ?f2 = Inr 0x72220143"
    by (simp_all add: single_fragment dup_fragment)
  have a3: "seq ?f1 = Inr 0x81" "seq ?f2 = Inr 0x81"
    by (simp_all add: single_fragment dup_fragment)
  have g: "fst (get_payload AddrNone single_txn) = Inr (0x95, data ?f1)"
    by (simp add: get_payload_def single_txn_def log_txn_def filter_src_def single_fragment
        check_crc_def unpack_H_def crc_eval)
  show ?thesis
    using duplicate_is_ignored [OF a1 a2 a3, of AddrNone "[]" "(0x95, data ?f1)"] g a1 a2 a3
    by (simp add: single_txn_def)
qed

section \<open>Composition and reassembly\<close>

lemma concat_chunks: "concat (map (\<lambda>k. take m (drop (k * m) P)) [0..<n]) = take (n * m) P"
proof (induction n)
  case 0
  show ?case by simp
next
  case (Suc n)
  have "take (n * m + m) P = take (n * m) P @ take m (drop (n * m) P)"
    by (rule take_add)
  then show ?case using Suc by (simp add: add.commute)
qed

lemma range_step_16: "range_step l rf_mtu = map (\<lambda>k. k * 16) [0..<(l + 15) div 16]"
  by (simp add: range_step_def rf_mtu_def add.commute)

lemma terminal_iff: "k < (l + 15) div 16 \<Longrightarrow> (l \<le> k * 16 + rf_mtu) = (k + 1 = (l + 15) div 16)"
  unfolding rf_mtu_def by arith

lemma iter_frames_ok:
  assumes s4: "length (rf_source rf) = 4" and t4: "length (rf_target rf) = 4"
    and N: "N = (length P + 15) div 16" and N127: "N \<le> 127"
  shows "j \<le> N \<Longrightarrow> iter_frames rf P (map (\<lambda>k. k * 16) [j..<N]) j =
     Inr (map (\<lambda>k. \<lparr>esb_preamble = [0x15], esb_target = rf_target rf,
                      esb_source = rf_source rf,
                      esb_payload = of_nat (if k + 1 = N then k + 1 + 0x80 else k + 1)
                                    # take 16 (drop (k * 16) P)\<rparr>) [j..<N])"
proof (induction "N - j" arbitrary: j)
  case 0
  then show ?case by simp
next
  case (Suc d)
  then have jN: "j < N" and d: "d = N - Suc j" and le: "Suc j \<le> N" by auto
  have up: "[j..<N] = j # [Suc j..<N]" using jN by (simp add: upt_conv_Cons)
  have tm: "(length P \<le> j * 16 + rf_mtu) = (j + 1 = N)"
    using terminal_iff [of j "length P"] jN N by simp
  show ?case
  proof (cases "j + 1 = N")
    case True
    then have e: "[Suc j..<N] = []" by simp
    have "j + 1 + 0x80 < (256::nat)" using True N127 by simp
    then show ?thesis
      using True tm
      by (simp add: up e pack_B_def ESBFrame_init_def s4 t4 Let_def rf_mtu_def)
  next
    case False
    have "j + 1 < (256::nat)" using jN N127 by simp
    then show ?thesis
      using False tm Suc.hyps(1) [OF d le]
      by (simp add: up pack_B_def ESBFrame_init_def s4 t4 Let_def rf_mtu_def del: upt_Suc)
  qed
qed

lemma iter_frames_overflow:
  assumes s4: "length (rf_source rf) = 4" and t4: "length (rf_target rf) = 4"
    and N: "N = (length P + 15) div 16" and N128: "128 \<le> N"
  shows "j < N \<Longrightarrow> iter_frames rf P (map (\<lambda>k. k * 16) [j..<N]) j = Inl StructError"
proof (induction "N - j" arbitrary: j)
  case 0
  then show ?case by simp
next
  case (Suc d)
  then have jN: "j < N" and d: "d = N - Suc j" by auto
  have up: "[j..<N] = j # [Suc j..<N]" using jN by (simp add: upt_conv_Cons)
  have tm: "(length P \<le> j * 16 + rf_mtu) = (j + 1 = N)"
    using terminal_iff [of j "length P"] jN N by simp
  show ?case
  proof (cases "j + 1 = N")
    case True
    have "\<not> j + 1 + 0x80 < (256::nat)" using True N128 by simp
    then show ?thesis
      using True tm by (simp add: up pack_B_def Let_def del: upt_Suc)
  next
    case False
    then have lt: "Suc j < N" using jN by simp
    show ?thesis
      using False tm Suc.hyps(1) [OF d lt]
      by (simp add: up pack_B_def ESBFrame_init_def s4 t4 Let_def del: upt_Suc)
  qed
qed

lemma RequestFactory_crc_ok:
  "RequestFactory_crc rf = Inr [of_nat (unat (f_crc_m (rf_payload rf)) div 256),
                                of_nat (unat (f_crc_m (rf_payload rf)))]"
proof -
  have "unat (f_crc_m (rf_payload rf)) < 65536"
    using unsigned_less [of "f_crc_m (rf_payload rf)", where ?'a = nat] by simp
  then show ?thesis by (simp add: RequestFactory_crc_def pack_H_def)
qed

lemma unpack_pack_H: "n < 65536 \<Longrightarrow> unpack_H [of_nat (n div 256), of_nat n] = Inr n"
proof -
  assume n: "n < 65536"
  have a: "unat (of_nat (n div 256) :: byte) = n div 256"
    using n by (simp add: unat_of_nat take_bit_nat_eq_self_iff)
  have b: "unat (of_nat n :: byte) = n mod 256"
    by (simp add: unat_of_nat take_bit_eq_mod)
  show ?thesis by (simp add: unpack_H_def a b)
qed

lemma composed_fragment:
  assumes fr: "frame x = [0x15] @ tg @ sr @ of_nat s # ch @ [crc]"
    and tg: "length tg = 4" and sr: "length sr = 4" and s: "s < 256"
  shows "src x = unpack_L tg" and "seq x = Inr s" and "data x = ch" and "main_cmd x = Inr 0x15"
proof -
  have u: "unat (of_nat s :: byte) = s"
    using s by (simp add: unat_of_nat take_bit_nat_eq_self_iff)
  show "src x = unpack_L tg" by (simp add: src_def fr tg)
  show "seq x = Inr s" by (simp add: seq_def fr tg sr unpack_B_def u)
  show "data x = ch" by (simp add: data_def fr tg sr butlast_append)
  show "main_cmd x = Inr 0x15" by (simp add: main_cmd_def fr)
qed

lemma unpack_L_4: "length tg = 4 \<Longrightarrow> \<exists>a. unpack_L tg = Inr a"
proof -
  assume "length tg = 4"
  then have "length tg = Suc (Suc (Suc (Suc 0)))" by simp
  then obtain a b c d where "tg = [a, b, c, d]" by (auto simp: length_Suc_conv)
  then show ?thesis by (simp add: unpack_L_def)
qed


lemma get_payload_of_first_matches:
  assumes srcs: "\<forall>f\<in>set (scratch t). \<exists>n. src f = Inr n"
    and frames: "frames = filter (from_src (filter_src src_param t)) (scratch t)"
    and seqs: "\<forall>f\<in>set frames. \<exists>s. seq f = Inr s"
    and terminal: "find (seq_satisfies (\<lambda>s. 0x80 < s)) frames = Some e"
    and N: "seq e = Inr (0x80 + N)"
    and parts: "\<forall>j\<in>{1..<N}. find (seq_satisfies (\<lambda>s. s = j)) frames = Some (d j)"
    and payload: "payload = concat (map (\<lambda>j. data (d j)) [1..<N]) @ data e"
    and crc: "unpack_H (drop (length payload - 2) payload)
        = Inr (unat (f_crc_m (take (length payload - 2) payload)))"
  shows "get_payload src_param t =
     (Inr (unat (hd (frame e)), payload), t\<lparr>txn_time_rx := Some (time_rx e)\<rparr>)"
proof -
  have ff: "frames_from (filter_src src_param t) (scratch t) = Inr frames"
    using srcs frames by (simp add: frames_from_filter)
  have nf: "next_frame P frames = Inr (find (seq_satisfies P) frames)" for P
    using seqs by (rule next_frame_find)
  have "\<forall>j\<in>set [1..<N]. next_frame (\<lambda>s. s = j) frames = Inr (Some (d j))"
    using parts by (simp add: nf)
  then have rb: "rebuild frames [1..<N] [] = Rebuilt (concat (map (\<lambda>j. data (d j)) [1..<N]))"
    using rebuild_found [of "[1..<N]" frames d "[]"] by simp
  have cc: "check_crc e payload = Inr (unat (hd (frame e)), payload)"
    using crc seq_main_cmd [OF N] by (simp add: check_crc_def)
  show ?thesis
    using rb cc by (simp add: get_payload_def ff nf terminal N Let_def payload)
qed

lemma RequestFactory_iter_ok:
  assumes s4: "length (rf_source rf) = 4" and t4: "length (rf_target rf) = 4"
    and c: "RequestFactory_crc rf = Inr c"
    and N: "N = (length (rf_payload rf @ c) + 15) div 16" and N127: "N \<le> 127"
  shows "RequestFactory_iter rf =
     Inr (map (\<lambda>k. \<lparr>esb_preamble = [0x15], esb_target = rf_target rf,
                      esb_source = rf_source rf,
                      esb_payload = of_nat (if k + 1 = N then k + 1 + 0x80 else k + 1)
                                    # take 16 (drop (k * 16) (rf_payload rf @ c))\<rparr>) [0..<N])"
  using iter_frames_ok [OF s4 t4 N N127, of 0]
  by (simp add: RequestFactory_iter_def c Let_def range_step_16 N)

lemma RequestFactory_iter_overflow:
  assumes s4: "length (rf_source rf) = 4" and t4: "length (rf_target rf) = 4"
    and len: "16 * 127 < length (rf_payload rf) + 2"
  shows "RequestFactory_iter rf = Inl StructError"
proof -
  let ?c = "[of_nat (unat (f_crc_m (rf_payload rf)) div 256),
             of_nat (unat (f_crc_m (rf_payload rf)))] :: bytes"
  let ?N = "(length (rf_payload rf @ ?c) + 15) div 16"
  have "128 \<le> ?N" using len by simp
  then have "iter_frames rf (rf_payload rf @ ?c) (map (\<lambda>k. k * 16) [0..<?N]) 0 = Inl StructError"
    by (intro iter_frames_overflow [OF s4 t4 refl]) simp_all
  then show ?thesis
    by (simp add: RequestFactory_iter_def RequestFactory_crc_ok Let_def range_step_16)
qed

text \<open>
  C2, as the claim states it, fails twice. The payload \<open>get_payload\<close> returns for the
  frames of a request is the payload of the request followed by its two checksum
  bytes, not the payload alone: so for the set-time payload of the log, composed into
  one frame. And the composer itself fails on a payload of 2031 bytes, which is
  shorter than \<open>16 * 127\<close>: with the checksum it needs 128 frames, and the sequence byte
  \<open>0x80 + 128\<close> of the last one does not fit \<open>struct.pack('>B', ...)\<close>.
\<close>

theorem composed_payload_keeps_crc:
  "RequestFactory_iter set_time_request =
     Inr [\<lparr>esb_preamble = [0x15], esb_target = [0x72, 0x22, 0x01, 0x43],
           esb_source = [0x78, 0x56, 0x34, 0x12],
           esb_payload = 0x81 # rf_payload set_time_request @ [0x7e, 0x58]\<rparr>]
   \<and> fst (get_payload AddrNone (frame_append (fragment_of 1 (ESBFrame_bytes
          \<lparr>esb_preamble = [0x15], esb_target = [0x72, 0x22, 0x01, 0x43],
           esb_source = [0x78, 0x56, 0x34, 0x12],
           esb_payload = 0x81 # rf_payload set_time_request @ [0x7e, 0x58]\<rparr>)) log_txn))
       = Inr (0x15, rf_payload set_time_request @ [0x7e, 0x58])
   \<and> length (rf_payload long_request) = 2031 \<and> (2031 :: nat) < 16 * 127
   \<and> RequestFactory_iter long_request = Inl StructError"
proof -
  have it: "RequestFactory_iter set_time_request =
     Inr [\<lparr>esb_preamble = [0x15], esb_target = [0x72, 0x22, 0x01, 0x43],
           esb_source = [0x78, 0x56, 0x34, 0x12],
           esb_payload = 0x81 # rf_payload set_time_request @ [0x7e, 0x58]\<rparr>]"
    by (simp add: RequestFactory_iter_def RequestFactory_crc_def set_time_request_def pack_H_def
        crc_eval range_step_def rf_mtu_def pack_B_def ESBFrame_init_def Let_def)
  have gp: "fst (get_payload AddrNone (frame_append (fragment_of 1 (ESBFrame_bytes
          \<lparr>esb_preamble = [0x15], esb_target = [0x72, 0x22, 0x01, 0x43],
           esb_source = [0x78, 0x56, 0x34, 0x12],
           esb_payload = 0x81 # rf_payload set_time_request @ [0x7e, 0x58]\<rparr>)) log_txn))
       = Inr (0x15, rf_payload set_time_request @ [0x7e, 0x58])"
    by (simp add: get_payload_def frame_append_def log_txn_def filter_src_def fragment_of_def
        ESBFrame_bytes_def ESBFrame_packet_def ESBFrame_crc_def set_time_request_def
        src_def seq_def main_cmd_def data_def unpack_L_def unpack_B_def
        check_crc_def unpack_H_def crc_eval Let_def)
  have ov: "RequestFactory_iter long_request = Inl StructError"
    by (rule RequestFactory_iter_overflow)
       (simp_all add: long_request_def set_time_request_def)
  show ?thesis
    using it gp ov by (simp add: long_request_def)
qed

text \<open>
  C2, amended. Let a request have addresses of 4 bytes (as \<open>ser_to_hm_addr\<close> returns
  them) and a payload \<open>p\<close> of at most \<open>16 * 127 - 2\<close> bytes, and let \<open>c\<close> be the two bytes
  of its Modbus CRC-16. The composer returns its frames, and whenever a transaction
  with an empty scratch that filters by the target address of the request is given
  fragments whose frames are exactly these frames, in any order and with any
  repetition, every such fragment is one the constructor accepts and \<open>get_payload\<close>
  succeeds with the main command \<open>0x15\<close> and the payload \<open>p\<close> followed by \<open>c\<close>: the
  result does not depend on the order of arrival.
\<close>

theorem compose_then_reassemble:
  assumes s4: "length (rf_source rf) = 4" and t4: "length (rf_target rf) = 4"
    and len: "length (rf_payload rf) + 2 \<le> 16 * 127"
  shows "\<exists>frs c a. RequestFactory_iter rf = Inr frs \<and> RequestFactory_crc rf = Inr c
     \<and> unpack_L (rf_target rf) = Inr a
     \<and> (\<forall>xs t x. frame ` set xs = ESBFrame_bytes ` set frs \<and> scratch t = []
            \<and> filter_src x t = AddrInt a \<longrightarrow>
          (\<forall>f\<in>set xs. accepted f)
          \<and> fst (get_payload x (fold frame_append xs t)) = Inr (0x15, rf_payload rf @ c))"
proof -
  define u where "u = unat (f_crc_m (rf_payload rf))"
  define c :: bytes where "c = [of_nat (u div 256), of_nat u]"
  define P where "P = rf_payload rf @ c"
  define N where "N = (length P + 15) div 16"
  define sq where "sq = (\<lambda>k. if k + 1 = N then k + 1 + 0x80 else k + 1)"
  define ch where "ch = (\<lambda>k. take 16 (drop (k * 16) P))"
  define mk where "mk = (\<lambda>k. \<lparr>esb_preamble = [0x15], esb_target = rf_target rf,
      esb_source = rf_source rf, esb_payload = of_nat (sq k) # ch k\<rparr>)"
  define frs where "frs = map mk [0..<N]"
  have u: "u < 65536"
    unfolding u_def using unsigned_less [of "f_crc_m (rf_payload rf)", where ?'a = nat] by simp
  have crc: "RequestFactory_crc rf = Inr c"
    by (simp add: RequestFactory_crc_ok c_def u_def)
  have lP: "length P = length (rf_payload rf) + 2"
    by (simp add: P_def c_def)
  have N1: "1 \<le> N" and N127: "N \<le> 127"
    using len by (simp_all add: N_def lP)
  have iter: "RequestFactory_iter rf = Inr frs"
    using RequestFactory_iter_ok [OF s4 t4 crc, of N] N127
    by (simp add: frs_def mk_def sq_def ch_def N_def P_def)
  obtain a where a: "unpack_L (rf_target rf) = Inr a"
    using unpack_L_4 [OF t4] by blast
  have bytes: "ESBFrame_bytes (mk k) =
      [0x15] @ rf_target rf @ rf_source rf @ of_nat (sq k) # ch k @
      [f_crc8 ([0x15] @ rf_target rf @ rf_source rf @ of_nat (sq k) # ch k)]" for k
    by (simp add: ESBFrame_bytes_def ESBFrame_packet_def ESBFrame_crc_def mk_def)
  have sq256: "sq k < 256" if "k < N" for k
    using that N127 by (simp add: sq_def)
  have whole: "concat (map ch [0..<N]) = P"
  proof -
    have "concat (map ch [0..<N]) = take (N * 16) P"
      unfolding ch_def by (rule concat_chunks)
    moreover have "length P \<le> N * 16" unfolding N_def by arith
    ultimately show ?thesis by simp
  qed
  have crcP: "unpack_H (drop (length P - 2) P) = Inr (unat (f_crc_m (take (length P - 2) P)))"
    using unpack_pack_H [OF u] by (simp add: P_def c_def u_def)
  have main: "(\<forall>f\<in>set xs. accepted f)
      \<and> fst (get_payload x (fold frame_append xs t)) = Inr (0x15, rf_payload rf @ c)"
    if sets: "frame ` set xs = ESBFrame_bytes ` set frs" and empty: "scratch t = []"
      and fs: "filter_src x t = AddrInt a" for xs t x
  proof -
    let ?t = "fold frame_append xs t"
    have each: "\<exists>k<N. frame f = ESBFrame_bytes (mk k)" if "f \<in> set xs" for f
    proof -
      have "frame f \<in> ESBFrame_bytes ` set frs" using that sets by blast
      then show ?thesis by (auto simp: frs_def)
    qed
    have every: "\<exists>f\<in>set xs. frame f = ESBFrame_bytes (mk k)" if "k < N" for k
    proof -
      have "ESBFrame_bytes (mk k) \<in> frame ` set xs" using that sets by (simp add: frs_def)
      then show ?thesis by auto
    qed
    have fields: "src f = Inr a \<and> seq f = Inr (sq k) \<and> data f = ch k \<and> main_cmd f = Inr 0x15
        \<and> hd (frame f) = 0x15 \<and> accepted f"
      if "frame f = ESBFrame_bytes (mk k)" and "k < N" for f k
    proof -
      have fr: "frame f = [0x15] @ rf_target rf @ rf_source rf @ of_nat (sq k) # ch k @
          [f_crc8 ([0x15] @ rf_target rf @ rf_source rf @ of_nat (sq k) # ch k)]"
        using that(1) by (simp only: bytes)
      note cf = composed_fragment [OF fr t4 s4 sq256 [OF that(2)]]
      have "accepted f"
        by (simp add: accepted_def InverterPacketFragment_init_def fr butlast_append)
      then show ?thesis using cf a by (simp add: fr)
    qed
    have acc: "\<forall>f\<in>set xs. accepted f"
      using each fields by blast
    have sc: "scratch ?t = xs"
      by (simp add: fold_frame_append empty)
    have fst': "filter_src x ?t = AddrInt a"
      using fs by (auto simp: fold_frame_append filter_src_def split: if_splits)
    have srcs: "\<forall>f\<in>set (scratch ?t). \<exists>n. src f = Inr n"
      unfolding sc using each fields by blast
    have frames: "xs = filter (from_src (filter_src x ?t)) (scratch ?t)"
    proof -
      have "\<forall>f\<in>set xs. from_src (AddrInt a) f"
        using each fields by (fastforce simp: from_src_def)
      then show ?thesis by (simp add: sc fst')
    qed
    have seqs: "\<forall>f\<in>set xs. \<exists>s. seq f = Inr s"
      using each fields by blast
    have pick: "\<exists>g. find (seq_satisfies (\<lambda>s. s = sq k)) xs = Some g \<and> g \<in> set xs
        \<and> frame g = ESBFrame_bytes (mk k)" if k: "k < N" for k
    proof -
      obtain f where f: "f \<in> set xs" "frame f = ESBFrame_bytes (mk k)"
        using every [OF k] by blast
      then have "seq_satisfies (\<lambda>s. s = sq k) f"
        using fields [OF f(2) k] by (simp add: seq_satisfies_def)
      then obtain g where g: "find (seq_satisfies (\<lambda>s. s = sq k)) xs = Some g"
        using f(1) by (cases "find (seq_satisfies (\<lambda>s. s = sq k)) xs") (auto simp: find_None_iff)
      then have gin: "g \<in> set xs" and gs: "seq_satisfies (\<lambda>s. s = sq k) g"
        by (auto simp: find_Some_iff)
      obtain k' where k': "k' < N" "frame g = ESBFrame_bytes (mk k')"
        using each [OF gin] by blast
      have "sq k' = sq k"
        using gs fields [OF k'(2) k'(1)] by (simp add: seq_satisfies_def)
      then have "k' = k"
        using k k' N127 by (auto simp: sq_def split: if_splits)
      then show ?thesis using g gin k' by simp
    qed
    obtain e where e: "find (seq_satisfies (\<lambda>s. 0x80 < s)) xs = Some e"
      and ef: "frame e = ESBFrame_bytes (mk (N - 1))"
    proof -
      have last: "N - 1 < N" using N1 by simp
      obtain f where f: "f \<in> set xs" "frame f = ESBFrame_bytes (mk (N - 1))"
        using every [OF last] by blast
      have "seq_satisfies (\<lambda>s. 0x80 < s) f"
        using fields [OF f(2) last] N1 by (simp add: seq_satisfies_def sq_def)
      then obtain g where g: "find (seq_satisfies (\<lambda>s. 0x80 < s)) xs = Some g"
        using f(1) by (cases "find (seq_satisfies (\<lambda>s. 0x80 < s)) xs") (auto simp: find_None_iff)
      then have gin: "g \<in> set xs" and gs: "seq_satisfies (\<lambda>s. 0x80 < s) g"
        by (auto simp: find_Some_iff)
      obtain k' where k': "k' < N" "frame g = ESBFrame_bytes (mk k')"
        using each [OF gin] by blast
      have "0x80 < sq k'"
        using gs fields [OF k'(2) k'(1)] by (simp add: seq_satisfies_def)
      then have "k' = N - 1"
        using k' N127 by (auto simp: sq_def split: if_splits)
      then show ?thesis using that g k' by simp
    qed
    have elast: "N - 1 < N" using N1 by simp
    have eN: "seq e = Inr (0x80 + N)"
      using fields [OF ef elast] N1 by (simp add: sq_def)
    define d where "d = (\<lambda>j. the (find (seq_satisfies (\<lambda>s. s = j)) xs))"
    have dj: "find (seq_satisfies (\<lambda>s. s = j)) xs = Some (d j) \<and> data (d j) = ch (j - 1)"
      if "j \<in> {1..<N}" for j
    proof -
      have k: "j - 1 < N" and sqj: "sq (j - 1) = j" using that by (auto simp: sq_def)
      obtain g where g: "find (seq_satisfies (\<lambda>s. s = j)) xs = Some g"
        "frame g = ESBFrame_bytes (mk (j - 1))"
        using pick [OF k] unfolding sqj by blast
      then show ?thesis using fields [OF g(2) k] by (simp add: d_def)
    qed
    have parts: "\<forall>j\<in>{1..<N}. find (seq_satisfies (\<lambda>s. s = j)) xs = Some (d j)"
      using dj by blast
    have dS: "data (d (Suc k)) = ch k" if "k < N - 1" for k
      using dj [of "Suc k"] that by simp
    have up: "[1..<N] = map Suc [0..<N - 1]"
      using N1 by (simp add: map_Suc_upt)
    have m: "map (\<lambda>j. data (d j)) [1..<N] = map ch [0..<N - 1]"
    proof -
      have "map (\<lambda>j. data (d j)) (map Suc [0..<N - 1]) = map ch [0..<N - 1]"
        using dS by (simp add: comp_def)
      then show ?thesis by (simp only: up)
    qed
    have "[0..<N] = [0..<N - 1] @ [N - 1]"
      using N1 by (cases N) simp_all
    then have "concat (map ch [0..<N]) = concat (map ch [0..<N - 1]) @ ch (N - 1)"
      by simp
    then have payload: "P = concat (map (\<lambda>j. data (d j)) [1..<N]) @ data e"
      using whole m fields [OF ef elast] by simp
    have "get_payload x ?t =
        (Inr (unat (hd (frame e)), P), ?t\<lparr>txn_time_rx := Some (time_rx e)\<rparr>)"
      using srcs frames seqs e eN parts payload crcP by (rule get_payload_of_first_matches)
    then have "fst (get_payload x ?t) = Inr (0x15, rf_payload rf @ c)"
      using fields [OF ef elast] by (simp add: P_def)
    then show ?thesis using acc by simp
  qed
  show ?thesis
    using iter crc a main by blast
qed

theorem compose_then_reassemble_witness:
  "\<exists>f1 f2 f3. RequestFactory_iter echo_request = Inr [f1, f2, f3]
     \<and> accepted (fragment_of 1 (ESBFrame_bytes f3))
     \<and> fst (get_payload AddrNone
          (fold frame_append
             [fragment_of 1 (ESBFrame_bytes f3), fragment_of 2 (ESBFrame_bytes f1),
              fragment_of 3 (ESBFrame_bytes f2), fragment_of 4 (ESBFrame_bytes f1)] log_txn))
        = Inr (0x15, log_payload)"
proof -
  have h1: "length (rf_source echo_request) = 4" and h2: "length (rf_target echo_request) = 4"
    by (simp_all add: echo_request_def set_time_request_def)
  have h3: "length (rf_payload echo_request) + 2 \<le> 16 * 127"
    by (simp add: echo_request_def log_payload_def)
  obtain frs c a where iter: "RequestFactory_iter echo_request = Inr frs"
    and crc: "RequestFactory_crc echo_request = Inr c"
    and a: "unpack_L (rf_target echo_request) = Inr a"
    and all: "\<And>xs t x. frame ` set xs = ESBFrame_bytes ` set frs \<Longrightarrow> scratch t = [] \<Longrightarrow>
            filter_src x t = AddrInt a \<Longrightarrow>
          (\<forall>f\<in>set xs. accepted f)
          \<and> fst (get_payload x (fold frame_append xs t)) = Inr (0x15, rf_payload echo_request @ c)"
    using compose_then_reassemble [OF h1 h2 h3] by blast
  have "RequestFactory_crc echo_request = Inr [0x0c, 0x35]"
    by (simp add: RequestFactory_crc_def echo_request_def log_payload_def pack_H_def crc_eval)
  then have cv: "c = [0x0c, 0x35]"
    using crc by simp
  have av: "a = 0x72220143"
    using a by (simp add: echo_request_def set_time_request_def unpack_L_def)
  have "length frs = 3"
    using iter RequestFactory_iter_ok [OF h1 h2 crc refl]
    by (simp add: cv echo_request_def log_payload_def)
  then obtain f1 f2 f3 where frs: "frs = [f1, f2, f3]"
    by (auto simp: length_Suc_conv eval_nat_numeral)
  let ?xs = "[fragment_of 1 (ESBFrame_bytes f3), fragment_of 2 (ESBFrame_bytes f1),
              fragment_of 3 (ESBFrame_bytes f2), fragment_of 4 (ESBFrame_bytes f1)]"
  have s: "frame ` set ?xs = ESBFrame_bytes ` set frs"
    by (auto simp: frs fragment_of_sel)
  have e: "scratch log_txn = []" and f: "filter_src AddrNone log_txn = AddrInt a"
    by (simp_all add: log_txn_def filter_src_def av)
  have "rf_payload echo_request @ c = log_payload"
    by (simp add: cv echo_request_def log_payload_def)
  then show ?thesis
    using all [OF s e f] iter by (auto simp: frs)
qed

end
